theory Spec2Isabelle
  imports Main "HOL-Library.Word" "HOL-Library.Char_ord" "HOL-Library.List_Lexorder"
begin

unbundle bit_operations_syntax

section \<open>Schema model (package schema, as used by sqlx.Diff)\<close>

text \<open>
  The schema package itself is not part of the sources at hand; the differ in
  \<^verbatim>\<open>sql/internal/sqlx\<close> (func (d *Diff) ...) only reads the fields modelled below.
  Attribute bags are heterogeneous lists: the constructors cover the attribute types that the
  generic differ and the MySQL differ inspect, everything else is an opaque \<open>OtherAttr\<close>.
\<close>

datatype Attr =
    Comment string
  | Charset string
  | Collation string
  | Check string string
  | SubPart int
  | IndexType string
  | IndexParser string
  | OtherAttr string string

record Column =
  cName :: string
  cType :: string
  cNull :: bool
  cDefault :: "string option"
  cAttrs :: "Attr list"

text \<open>
  An index part is a column reference (\<open>C\<close>) or an expression (\<open>X\<close>). The differ reads the
  expression with the type assertion \<^verbatim>\<open>X.(*schema.RawExpr).X\<close>, so \<open>X\<close> holds the raw string.
\<close>

record IndexPart =
  SeqNo :: int
  Desc :: bool
  X :: "string option"
  C :: "Column option"
  pAttrs :: "Attr list"

record Index =
  iName :: string
  Unique :: bool
  iAttrs :: "Attr list"
  Parts :: "IndexPart list"

record ForeignKey =
  Symbol :: string
  fkColumns :: "Column list"
  RefTable :: string
  RefColumns :: "Column list"
  OnUpdate :: string
  OnDelete :: string
  fkAttrs :: "Attr list"

record Trigger =
  trName :: string
  trBody :: string

record Table =
  tName :: string
  tAttrs :: "Attr list"
  Columns :: "Column list"
  PrimaryKey :: "Index option"
  Indexes :: "Index list"
  ForeignKeys :: "ForeignKey list"
  tTriggers :: "Trigger list"

record View =
  vName :: string
  Def :: string
  Materialized :: bool
  vAttrs :: "Attr list"
  vColumns :: "Column list"
  vIndexes :: "Index list"
  vTriggers :: "Trigger list"

record Schema =
  sName :: string
  sAttrs :: "Attr list"
  Tables :: "Table list"
  Views :: "View list"

subsection \<open>Change kinds and changes\<close>

text \<open>
  Modelled from the spec: the declaration of \<^verbatim>\<open>schema.ChangeKind\<close> and of its constants is
  missing from the sources. The spec calls it a bitset naming the dimensions that changed; it
  is a Go \<^verbatim>\<open>uint\<close>, one bit per dimension, with \<open>NoChange\<close> the zero value.
\<close>

type_synonym ChangeKind = "64 word"

definition NoChange :: ChangeKind where "NoChange = 0"
definition ChangeAttr :: ChangeKind where "ChangeAttr = 1"
definition ChangeCharset :: ChangeKind where "ChangeCharset = 2"
definition ChangeCollate :: ChangeKind where "ChangeCollate = 4"
definition ChangeComment :: ChangeKind where "ChangeComment = 8"
definition ChangeNull :: ChangeKind where "ChangeNull = 16"
definition ChangeType :: ChangeKind where "ChangeType = 32"
definition ChangeDefault :: ChangeKind where "ChangeDefault = 64"
definition ChangeGenerated :: ChangeKind where "ChangeGenerated = 128"
definition ChangeUnique :: ChangeKind where "ChangeUnique = 256"
definition ChangeParts :: ChangeKind where "ChangeParts = 512"
definition ChangeColumn :: ChangeKind where "ChangeColumn = 1024"
definition ChangeRefColumn :: ChangeKind where "ChangeRefColumn = 2048"
definition ChangeRefTable :: ChangeKind where "ChangeRefTable = 4096"
definition ChangeUpdateAction :: ChangeKind where "ChangeUpdateAction = 8192"
definition ChangeDeleteAction :: ChangeKind where "ChangeDeleteAction = 16384"

datatype Change =
    ModifySchema Schema "Change list"
  | AddTable Table
  | DropTable Table
  | ModifyTable Table "Change list"
  | AddTrigger Trigger
  | AddView View
  | DropView View
  | ModifyView View View "Change list"
  | AddColumn Column
  | DropColumn Column
  | ModifyColumn Column Column ChangeKind
  | AddIndex Index
  | DropIndex Index
  | ModifyIndex Index Index ChangeKind
  | AddPrimaryKey Index
  | DropPrimaryKey Index
  | ModifyPrimaryKey Index Index ChangeKind
  | RenameConstraint Index Index
  | AddForeignKey ForeignKey
  | DropForeignKey ForeignKey
  | ModifyForeignKey ForeignKey ForeignKey ChangeKind
  | AddCheck string string
  | DropCheck string string
  | ModifyCheck string string
  | AddAttr Attr
  | ModifyAttr Attr Attr
  | OtherChange string

text \<open>
  \<^verbatim>\<open>SupportChange\<close> receives a typed nil pointer and switches on its dynamic type only, so its
  argument is the variant of the change.
\<close>

datatype ChangeVariant =
    V_ModifySchema | V_AddTable | V_DropTable | V_ModifyTable | V_RenameTable
  | V_AddColumn | V_DropColumn | V_ModifyColumn | V_RenameColumn
  | V_AddIndex | V_DropIndex | V_ModifyIndex | V_RenameIndex
  | V_AddPrimaryKey | V_DropPrimaryKey | V_ModifyPrimaryKey
  | V_RenameConstraint
  | V_AddForeignKey | V_DropForeignKey | V_ModifyForeignKey
  | V_Other

datatype diff_error =
    MismatchedSchemaNames string string
  | MismatchedTableNames string string
  | NotExistError string
  | DriverError string

text \<open>
  Modelled from the spec: \<^verbatim>\<open>schema.DiffOptions\<close> and its method \<^verbatim>\<open>AddOrSkip\<close> are missing from the
  sources. The spec: a DiffOptions-aware append that drops changes matching a user-supplied
  skip policy; diff producers funnel all change emissions through it.
\<close>

record DiffOptions =
  Skip :: "Change \<Rightarrow> bool"
  Normalized :: bool

definition AddOrSkip :: "DiffOptions \<Rightarrow> Change list \<Rightarrow> Change list \<Rightarrow> Change list" where
  "AddOrSkip opts changes cs = changes @ filter (\<lambda>c. \<not> Skip opts c) cs"

subsection \<open>The driver interface and the differ\<close>

datatype TriggerOwner = OnTable Table | OnView View

text \<open>
  \<^verbatim>\<open>DiffDriver\<close> with its required methods, and the optional interfaces (\<^verbatim>\<open>Normalizer\<close>,
  \<^verbatim>\<open>TableFinder\<close>, \<^verbatim>\<open>ChangesAnnotator\<close>, \<^verbatim>\<open>ProcFuncsDiffer\<close>, \<^verbatim>\<open>ChangeSupporter\<close>,
  \<^verbatim>\<open>FindGeneratedIndex\<close>, \<^verbatim>\<open>ViewDefChanged\<close>) as optional fields: \<open>None\<close> when the driver does not
  implement the interface. \<^verbatim>\<open>FindGeneratedIndex\<close> returns a pointer to an index of the table,
  here its position in \<open>Indexes\<close>.
\<close>

record DiffDriver =
  SchemaAttrDiff :: "Schema \<Rightarrow> Schema \<Rightarrow> Change list"
  SchemaObjectDiff :: "Schema \<Rightarrow> Schema \<Rightarrow> DiffOptions \<Rightarrow> diff_error + Change list"
  TableAttrDiff :: "Table \<Rightarrow> Table \<Rightarrow> DiffOptions \<Rightarrow> diff_error + Change list"
  ViewAttrChanges :: "View \<Rightarrow> View \<Rightarrow> Change list"
  ColumnChange :: "Table \<Rightarrow> Column \<Rightarrow> Column \<Rightarrow> DiffOptions \<Rightarrow> diff_error + Change option"
  IndexAttrChanged :: "Attr list \<Rightarrow> Attr list \<Rightarrow> bool"
  IndexPartAttrChanged :: "Index \<Rightarrow> Index \<Rightarrow> nat \<Rightarrow> bool"
  IsGeneratedIndexName :: "Table \<Rightarrow> Index \<Rightarrow> bool"
  ReferenceChanged :: "string \<Rightarrow> string \<Rightarrow> bool"
  ForeignKeyAttrChanged :: "Attr list \<Rightarrow> Attr list \<Rightarrow> bool"
  Normalize :: "(Table \<Rightarrow> Table \<Rightarrow> DiffOptions \<Rightarrow> diff_error + Table \<times> Table) option"
  FindTable :: "(Schema \<Rightarrow> Table \<Rightarrow> diff_error + Table) option"
  AnnotateChanges :: "(Change list \<Rightarrow> DiffOptions \<Rightarrow> diff_error + Change list) option"
  ProcFuncsDiff :: "(Schema \<Rightarrow> Schema \<Rightarrow> DiffOptions \<Rightarrow> diff_error + Change list) option"
  SupportChange :: "(ChangeVariant \<Rightarrow> bool) option"
  FindGeneratedIndex :: "(Table \<Rightarrow> Index \<Rightarrow> nat option) option"
  ViewDefChanged :: "(View \<Rightarrow> View \<Rightarrow> bool) option"

text \<open>
  \<^verbatim>\<open>Diff\<close> embeds the driver. Its methods \<^verbatim>\<open>triggerDiff\<close>, \<^verbatim>\<open>fixRenames\<close>, \<^verbatim>\<open>askForColumns\<close> and
  \<^verbatim>\<open>askForIndexes\<close> are defined in a file that is not among the sources; they are taken as
  parameters.
\<close>

record Diff = DiffDriver +
  triggerDiff :: "TriggerOwner \<Rightarrow> TriggerOwner \<Rightarrow> Trigger list \<Rightarrow> Trigger list \<Rightarrow> DiffOptions
                  \<Rightarrow> diff_error + Change list"
  fixRenames :: "Change list \<Rightarrow> Change list"
  askForColumns :: "Table \<Rightarrow> Change list \<Rightarrow> DiffOptions \<Rightarrow> diff_error + Change list"
  askForIndexes :: "string \<Rightarrow> Change list \<Rightarrow> DiffOptions \<Rightarrow> diff_error + Change list"


subsection \<open>Attribute lookup and comment changes\<close>

text \<open>
  \<^verbatim>\<open>Has(attrs, &schema.Comment{})\<close> finds the first attribute of the requested type and copies
  it into the target; when none is found the target keeps its zero value.
\<close>

fun hasComment :: "Attr list \<Rightarrow> string option" where
  "hasComment [] = None"
| "hasComment (Comment t # _) = Some t"
| "hasComment (_ # as) = hasComment as"

definition CommentChange :: "Attr list \<Rightarrow> Attr list \<Rightarrow> ChangeKind" where
  "CommentChange from to =
     (let c1 = hasComment from; c2 = hasComment to in
      if (c1 \<noteq> None) \<noteq> (c2 \<noteq> None)
         \<or> (case c1 of None \<Rightarrow> [] | Some t \<Rightarrow> t) \<noteq> (case c2 of None \<Rightarrow> [] | Some t \<Rightarrow> t)
      then ChangeComment else NoChange)"

subsection \<open>MayWrap\<close>

text \<open>
  Modelled from the spec: \<^verbatim>\<open>MayWrap\<close> and \<^verbatim>\<open>ExprLastIndex\<close> are missing from the sources (their
  tests, \<^verbatim>\<open>TestMayWrap\<close> and \<^verbatim>\<open>TestExprLastIndex\<close>, are present). The spec: MayWrap returns
  \<^verbatim>\<open>(s)\<close> unless \<open>s\<close> is already a fully balanced parenthesized expression, accounting for
  quoted strings and backslash escapes.

  \<open>skipQuote q cs\<close> scans for the quote that closes a string opened by \<open>q\<close>: a backslash
  skips the next character; the result is the number of characters up to and including the
  closing quote, or \<open>None\<close> at an unexpected end of the string.
\<close>

fun skipQuote :: "char \<Rightarrow> string \<Rightarrow> nat option" where
  "skipQuote q [] = None"
| "skipQuote q [c] = (if c = CHR 0x5C then None else if c = q then Some 1 else None)"
| "skipQuote q (c # d # cs) =
     (if c = CHR 0x5C then map_option (\<lambda>n. n + 2) (skipQuote q cs)
      else if c = q then Some 1
      else map_option Suc (skipQuote q (d # cs)))"

definition isQuoteChar :: "char \<Rightarrow> bool" where
  "isQuoteChar c \<longleftrightarrow> c = CHR 0x27 \<or> c = CHR 0x22 \<or> c = CHR 0x60"

text \<open>
  \<open>exprScan i l r cs\<close>: \<open>cs\<close> is the input from position \<open>i\<close> on, \<open>l\<close> and \<open>r\<close> count the
  parentheses opened and closed so far. The scan ends at the first position where the
  parentheses are balanced and the input ends or a comma follows; the result is \<open>-1\<close>
  when there is no such position.
\<close>

function exprScan :: "nat \<Rightarrow> nat \<Rightarrow> nat \<Rightarrow> string \<Rightarrow> int" where
  "exprScan i l r [] = -1"
| "exprScan i l r (c # cs) =
     (if isQuoteChar c then
        (case skipQuote c cs of
           None \<Rightarrow> -1
         | Some n \<Rightarrow>
             (let rest = drop n cs; j = i + n in
              if l = r \<and> (rest = [] \<or> hd rest = CHR '','') then int j
              else if r > l then -1
              else exprScan (Suc j) l r rest))
      else
        (let l' = (if c = CHR ''('' then Suc l else l);
             r' = (if c = CHR '')'' then Suc r else r) in
         if l' = r' \<and> (cs = [] \<or> hd cs = CHR '','') then int i
         else if r' > l' then -1
         else exprScan (Suc i) l' r' cs))"
  by pat_completeness auto
termination
  by (relation "measure (\<lambda>(i, l, r, cs). length cs)") auto

definition ExprLastIndex :: "string \<Rightarrow> int" where
  "ExprLastIndex expr = exprScan 0 0 0 expr"

definition balanced :: "string \<Rightarrow> bool" where
  "balanced expr \<longleftrightarrow> ExprLastIndex expr = int (length expr) - 1"

definition MayWrap :: "string \<Rightarrow> string" where
  "MayWrap s =
     (if length s < 2 \<or> hd s \<noteq> CHR ''('' \<or> last s \<noteq> CHR '')'' \<or> \<not> balanced (butlast (tl s))
      then ''('' @ s @ '')'' else s)"


subsection \<open>Index comparison: partsChange and indexChange\<close>

text \<open>
  \<^verbatim>\<open>renames[name]\<close> on a Go map (also a nil map) yields the empty string for a missing key.
\<close>

definition renamed :: "(string \<rightharpoonup> string) \<Rightarrow> string \<Rightarrow> string" where
  "renamed renames n = (case renames n of None \<Rightarrow> [] | Some m \<Rightarrow> m)"

text \<open>
  The loop \<^verbatim>\<open>for i := range from\<close> of \<^verbatim>\<open>partsChange\<close>, over the two sorted part lists; \<open>attrCh i\<close>
  is \<^verbatim>\<open>d.IndexPartAttrChanged(fromI, toI, i)\<close>. The cases are tried in the order of the source's
  \<^verbatim>\<open>switch\<close>.
\<close>

fun partsLoop :: "(nat \<Rightarrow> bool) \<Rightarrow> (string \<rightharpoonup> string) \<Rightarrow> nat \<Rightarrow> IndexPart list \<Rightarrow> IndexPart list
                  \<Rightarrow> ChangeKind" where
  "partsLoop attrCh renames i (p # ps) (q # qs) =
     (if Desc p \<noteq> Desc q \<or> attrCh i then ChangeParts
      else if C p \<noteq> None \<and> C q \<noteq> None then
        (if cName (the (C p)) \<noteq> cName (the (C q))
            \<and> renamed renames (cName (the (C p))) \<noteq> cName (the (C q))
         then ChangeParts else partsLoop attrCh renames (Suc i) ps qs)
      else if X p \<noteq> None \<and> X q \<noteq> None then
        (if the (X p) \<noteq> the (X q) \<and> the (X p) \<noteq> MayWrap (the (X q))
         then ChangeParts else partsLoop attrCh renames (Suc i) ps qs)
      else ChangeParts)"
| "partsLoop attrCh renames i _ _ = NoChange"

text \<open>
  \<^verbatim>\<open>sort.Slice\<close> orders both part lists by \<open>SeqNo\<close> in place, so the driver's
  \<^verbatim>\<open>IndexPartAttrChanged\<close> sees the indexes with their parts sorted. (\<^verbatim>\<open>sort.Slice\<close> is not
  stable; the schema model forbids equal sequence numbers within an index.)
\<close>

definition sortParts :: "IndexPart list \<Rightarrow> IndexPart list" where
  "sortParts ps = sort_key SeqNo ps"

definition partsChange :: "('z DiffDriver_scheme) \<Rightarrow> Index \<Rightarrow> Index \<Rightarrow> (string \<rightharpoonup> string) \<Rightarrow> ChangeKind" where
  "partsChange d fromI toI renames =
     (if length (Parts fromI) \<noteq> length (Parts toI) then ChangeParts
      else
        (let to = sortParts (Parts toI); from = sortParts (Parts fromI) in
         partsLoop (IndexPartAttrChanged d (fromI\<lparr>Parts := from\<rparr>) (toI\<lparr>Parts := to\<rparr>))
           renames 0 from to))"

definition indexChange :: "('z DiffDriver_scheme) \<Rightarrow> Index \<Rightarrow> Index \<Rightarrow> ChangeKind" where
  "indexChange d from to =
     (let change = (if Unique from \<noteq> Unique to then ChangeUnique else NoChange);
          change = (if IndexAttrChanged d (iAttrs from) (iAttrs to) then change OR ChangeAttr else change);
          change = change OR partsChange d from to Map.empty;
          change = change OR CommentChange (iAttrs from) (iAttrs to)
      in change)"

subsection \<open>Primary-key diff\<close>

text \<open>
  \<^verbatim>\<open>c, ok := d.DiffDriver.(ChangeSupporter)\<close> followed by
  \<^verbatim>\<open>!ok || c.SupportChange((*schema.RenameConstraint)(nil))\<close>.
\<close>

definition supportsRenameConstraint :: "('z DiffDriver_scheme) \<Rightarrow> bool" where
  "supportsRenameConstraint d =
     (case SupportChange d of None \<Rightarrow> True | Some f \<Rightarrow> f V_RenameConstraint)"

definition pkDiff :: "('z DiffDriver_scheme) \<Rightarrow> Table \<Rightarrow> Table \<Rightarrow> DiffOptions \<Rightarrow> Change list" where
  "pkDiff d from to opts =
     (case (PrimaryKey from, PrimaryKey to) of
        (None, Some pk2) \<Rightarrow> AddOrSkip opts [] [AddPrimaryKey pk2]
      | (Some pk1, None) \<Rightarrow> AddOrSkip opts [] [DropPrimaryKey pk1]
      | (Some pk1, Some pk2) \<Rightarrow>
          (let change = indexChange d pk1 pk2 AND NOT ChangeUnique in
           if change \<noteq> NoChange then AddOrSkip opts [] [ModifyPrimaryKey pk1 pk2 change]
           else if supportsRenameConstraint d
                   \<and> iName pk1 \<noteq> [] \<and> iName pk2 \<noteq> [] \<and> iName pk1 \<noteq> iName pk2
           then AddOrSkip opts [] [RenameConstraint pk1 pk2]
           else [])
      | (None, None) \<Rightarrow> [])"

subsection \<open>The MySQL differ (package mysql, type diff)\<close>

definition mysql_SupportChange :: "ChangeVariant \<Rightarrow> bool" where
  "mysql_SupportChange c = (case c of V_RenameConstraint \<Rightarrow> False | _ \<Rightarrow> True)"

fun hasSubPart :: "Attr list \<Rightarrow> int option" where
  "hasSubPart [] = None"
| "hasSubPart (SubPart n # _) = Some n"
| "hasSubPart (_ # as) = hasSubPart as"

text \<open>
  \<^verbatim>\<open>fromI.Parts[i]\<close> panics when \<open>i\<close> is out of range; the generic differ only calls the method
  with \<open>i\<close> below the common length of the two part lists. Out of range, the model reports a
  change.
\<close>

definition mysql_IndexPartAttrChanged :: "Index \<Rightarrow> Index \<Rightarrow> nat \<Rightarrow> bool" where
  "mysql_IndexPartAttrChanged fromI toI i =
     (if i < length (Parts fromI) \<and> i < length (Parts toI) then
        (let s1 = hasSubPart (pAttrs (Parts fromI ! i)); s2 = hasSubPart (pAttrs (Parts toI ! i)) in
         (s1 \<noteq> None) \<noteq> (s2 \<noteq> None)
         \<or> (case s1 of None \<Rightarrow> 0 | Some n \<Rightarrow> n) \<noteq> (case s2 of None \<Rightarrow> 0 | Some n \<Rightarrow> n))
      else True)"

definition mysql_ReferenceChanged :: "string \<Rightarrow> string \<Rightarrow> bool" where
  "mysql_ReferenceChanged from to =
     (let from' = (if from = [] \<or> from = ''RESTRICT'' then ''NO ACTION'' else from);
          to' = (if to = [] \<or> to = ''RESTRICT'' then ''NO ACTION'' else to)
      in from' \<noteq> to')"

definition mysql_ForeignKeyAttrChanged :: "Attr list \<Rightarrow> Attr list \<Rightarrow> bool" where
  "mysql_ForeignKeyAttrChanged from to = False"


text \<open>\<^verbatim>\<open>strings.ToUpper\<close>, on the ASCII letters.\<close>

definition toUpper :: "string \<Rightarrow> string" where
  "toUpper s = map (\<lambda>c. if CHR ''a'' \<le> c \<and> c \<le> CHR ''z'' then char_of (of_char c - (32::nat)) else c) s"

fun hasIndexType :: "Attr list \<Rightarrow> string option" where
  "hasIndexType [] = None"
| "hasIndexType (IndexType t # _) = Some t"
| "hasIndexType (_ # as) = hasIndexType as"

fun hasIndexParser :: "Attr list \<Rightarrow> string option" where
  "hasIndexParser [] = None"
| "hasIndexParser (IndexParser t # _) = Some t"
| "hasIndexParser (_ # as) = hasIndexParser as"

definition indexType :: "Attr list \<Rightarrow> string" where
  "indexType attr = (case hasIndexType attr of None \<Rightarrow> ''BTREE'' | Some t \<Rightarrow> toUpper t)"

definition mysql_IndexAttrChanged :: "Attr list \<Rightarrow> Attr list \<Rightarrow> bool" where
  "mysql_IndexAttrChanged from to =
     (if indexType from \<noteq> indexType to then True
      else
        (let fromP = hasIndexParser from; toP = hasIndexParser to in
         (fromP \<noteq> None) \<noteq> (toP \<noteq> None) \<or> (fromP \<noteq> None \<and> the fromP \<noteq> (case toP of None \<Rightarrow> [] | Some t \<Rightarrow> t))))"

text \<open>
  A differ for the examples below: the index, index-part, reference and foreign-key
  predicates and the \<^verbatim>\<open>ChangeSupporter\<close> are those of the MySQL differ; the attribute diffs
  report nothing and \<open>ColumnChange\<close> reports a type change exactly when the two columns differ;
  the helper methods return their input unchanged and report no trigger changes.
\<close>

definition exampleDiff :: Diff where
  "exampleDiff =
     \<lparr> SchemaAttrDiff = (\<lambda>from to. []),
       SchemaObjectDiff = (\<lambda>from to opts. Inr []),
       TableAttrDiff = (\<lambda>from to opts. Inr []),
       ViewAttrChanges = (\<lambda>from to. []),
       ColumnChange = (\<lambda>t from to opts.
          Inr (if from = to then None else Some (ModifyColumn from to ChangeType))),
       IndexAttrChanged = mysql_IndexAttrChanged,
       IndexPartAttrChanged = mysql_IndexPartAttrChanged,
       IsGeneratedIndexName = (\<lambda>t idx. False),
       ReferenceChanged = mysql_ReferenceChanged,
       ForeignKeyAttrChanged = mysql_ForeignKeyAttrChanged,
       Normalize = None,
       FindTable = None,
       AnnotateChanges = None,
       ProcFuncsDiff = None,
       SupportChange = Some mysql_SupportChange,
       FindGeneratedIndex = None,
       ViewDefChanged = None,
       triggerDiff = (\<lambda>o1 o2 t1 t2 opts. Inr []),
       fixRenames = (\<lambda>changes. changes),
       askForColumns = (\<lambda>t changes opts. Inr changes),
       askForIndexes = (\<lambda>n changes opts. Inr changes) \<rparr>"

definition noSkip :: DiffOptions where
  "noSkip = \<lparr> Skip = (\<lambda>c. False), Normalized = False \<rparr>"

definition colOf :: "string \<Rightarrow> Column" where
  "colOf n = \<lparr> cName = n, cType = ''int'', cNull = False, cDefault = None, cAttrs = [] \<rparr>"

definition colPart :: "int \<Rightarrow> string \<Rightarrow> IndexPart" where
  "colPart k n = \<lparr> SeqNo = k, Desc = False, X = None, C = Some (colOf n), pAttrs = [] \<rparr>"

definition exprPart :: "int \<Rightarrow> string \<Rightarrow> IndexPart" where
  "exprPart k x = \<lparr> SeqNo = k, Desc = False, X = Some x, C = None, pAttrs = [] \<rparr>"

definition indexOf :: "string \<Rightarrow> IndexPart list \<Rightarrow> Index" where
  "indexOf n ps = \<lparr> iName = n, Unique = False, iAttrs = [], Parts = ps \<rparr>"

definition tableOf :: "string \<Rightarrow> Column list \<Rightarrow> Index option \<Rightarrow> Index list \<Rightarrow> Table" where
  "tableOf n cs pk idxs =
     \<lparr> tName = n, tAttrs = [], Columns = cs, PrimaryKey = pk, Indexes = idxs,
       ForeignKeys = [], tTriggers = [] \<rparr>"


definition pkA :: Index where
  "pkA = indexOf ''pk_a'' [colPart 1 ''id'']"

definition pkB :: Index where
  "pkB = (indexOf ''pk_b'' [colPart 1 ''id''])\<lparr>Unique := True\<rparr>"

subsection \<open>Lookups of the schema model\<close>

text \<open>
  Modelled from the spec: the lookups \<^verbatim>\<open>Table(name)\<close>, \<^verbatim>\<open>Column(name)\<close>, \<^verbatim>\<open>Index(name)\<close>,
  \<^verbatim>\<open>ForeignKey(symbol)\<close>, \<^verbatim>\<open>View(name)\<close> and \<^verbatim>\<open>Materialized(name)\<close> of the schema package are
  missing from the sources. The spec: a lookup returns a single element or a not-exist marker;
  materialized and plain views are distinct identities. The element returned is the first one
  that carries the name.
\<close>

definition lookupTable :: "Schema \<Rightarrow> string \<Rightarrow> Table option" where
  "lookupTable s n = find (\<lambda>t. tName t = n) (Tables s)"

definition lookupColumn :: "Table \<Rightarrow> string \<Rightarrow> Column option" where
  "lookupColumn t n = find (\<lambda>c. cName c = n) (Columns t)"

definition lookupForeignKey :: "Table \<Rightarrow> string \<Rightarrow> ForeignKey option" where
  "lookupForeignKey t n = find (\<lambda>f. Symbol f = n) (ForeignKeys t)"

definition lookupViewColumn :: "View \<Rightarrow> string \<Rightarrow> Column option" where
  "lookupViewColumn v n = find (\<lambda>c. cName c = n) (vColumns v)"

definition lookupView :: "Schema \<Rightarrow> string \<Rightarrow> View option" where
  "lookupView s n = find (\<lambda>v. vName v = n \<and> \<not> Materialized v) (Views s)"

definition lookupMaterialized :: "Schema \<Rightarrow> string \<Rightarrow> View option" where
  "lookupMaterialized s n = find (\<lambda>v. vName v = n \<and> Materialized v) (Views s)"

text \<open>
  \<^verbatim>\<open>Index(name)\<close> returns a pointer, which \<^verbatim>\<open>indexDiffT\<close> uses as the key of its \<^verbatim>\<open>exists\<close> map: the
  model returns the position of the index in the list.
\<close>

fun findPos :: "('a \<Rightarrow> bool) \<Rightarrow> 'a list \<Rightarrow> nat option" where
  "findPos P [] = None"
| "findPos P (x # xs) = (if P x then Some 0 else map_option Suc (findPos P xs))"

definition lookupIndexPos :: "Index list \<Rightarrow> string \<Rightarrow> nat option" where
  "lookupIndexPos idxs n = findPos (\<lambda>i. iName i = n) idxs"

subsection \<open>Column diff\<close>

fun columnDropModify :: "('z Diff_scheme) \<Rightarrow> Table \<Rightarrow> Table \<Rightarrow> DiffOptions \<Rightarrow> Column list \<Rightarrow> Change list
                        \<Rightarrow> diff_error + Change list" where
  "columnDropModify d from to opts [] all = Inr all"
| "columnDropModify d from to opts (c1 # cs) all =
     (case lookupColumn to (cName c1) of
        None \<Rightarrow> columnDropModify d from to opts cs (all @ [DropColumn c1])
      | Some c2 \<Rightarrow>
          (case ColumnChange d from c1 c2 opts of
             Inl e \<Rightarrow> Inl e
           | Inr None \<Rightarrow> columnDropModify d from to opts cs all
           | Inr (Some change) \<Rightarrow> columnDropModify d from to opts cs (all @ [change])))"

definition columnAdd :: "Table \<Rightarrow> Table \<Rightarrow> Change list" where
  "columnAdd from to =
     map AddColumn (filter (\<lambda>c1. lookupColumn from (cName c1) = None) (Columns to))"

definition addAll :: "DiffOptions \<Rightarrow> Change list \<Rightarrow> Change list" where
  "addAll opts all = foldl (\<lambda>changes c. AddOrSkip opts changes [c]) [] all"

definition columnDiff :: "('z Diff_scheme) \<Rightarrow> Table \<Rightarrow> Table \<Rightarrow> DiffOptions \<Rightarrow> diff_error + Change list" where
  "columnDiff d from to opts =
     (case columnDropModify d from to opts (Columns from) [] of
        Inl e \<Rightarrow> Inl e
      | Inr all \<Rightarrow>
          (case askForColumns d from (all @ columnAdd from to) opts of
             Inl e \<Rightarrow> Inl e
           | Inr all' \<Rightarrow> Inr (addAll opts all')))"

subsection \<open>Index diff\<close>

definition similarUnnamedIndex :: "('z DiffDriver_scheme) \<Rightarrow> Table \<Rightarrow> Index \<Rightarrow> nat option" where
  "similarUnnamedIndex d t idx1 =
     (let match = (\<lambda>idx2. Unique idx1 = Unique idx2 \<and> partsChange d idx1 idx2 Map.empty = NoChange);
          scan = findPos (\<lambda>idx2. iName idx2 = [] \<and> match idx2) (Indexes t) in
      case FindGeneratedIndex d of
        None \<Rightarrow> scan
      | Some f \<Rightarrow>
          (case f t idx1 of
             None \<Rightarrow> scan
           | Some p \<Rightarrow> if p < length (Indexes t) \<and> match (Indexes t ! p) then Some p else scan))"

fun indexDropModify :: "('z Diff_scheme) \<Rightarrow> Table \<Rightarrow> Table \<Rightarrow> Index list \<Rightarrow> Change list \<Rightarrow> nat list
                        \<Rightarrow> Change list \<times> nat list" where
  "indexDropModify d from to [] all exists = (all, exists)"
| "indexDropModify d from to (idx1 # rest) all exists =
     (case lookupIndexPos (Indexes to) (iName idx1) of
        Some p \<Rightarrow>
          (let idx2 = Indexes to ! p; change = indexChange d idx1 idx2 in
           indexDropModify d from to rest
             (if change \<noteq> NoChange then all @ [ModifyIndex idx1 idx2 change] else all)
             (p # exists))
      | None \<Rightarrow>
          (case (if IsGeneratedIndexName d from idx1 then similarUnnamedIndex d to idx1 else None) of
             Some p \<Rightarrow> indexDropModify d from to rest all (p # exists)
           | None \<Rightarrow> indexDropModify d from to rest (all @ [DropIndex idx1]) exists))"

definition indexAdd :: "Index list \<Rightarrow> Index list \<Rightarrow> nat list \<Rightarrow> Change list" where
  "indexAdd fromIdxs toIdxs exists =
     map (\<lambda>(p, idx). AddIndex idx)
       (filter (\<lambda>(p, idx). p \<notin> set exists \<and> lookupIndexPos fromIdxs (iName idx) = None)
          (zip [0 ..< length toIdxs] toIdxs))"

definition indexDiffT :: "('z Diff_scheme) \<Rightarrow> Table \<Rightarrow> Table \<Rightarrow> DiffOptions \<Rightarrow> diff_error + Change list" where
  "indexDiffT d from to opts =
     (case indexDropModify d from to (Indexes from) [] [] of
        (all, exists) \<Rightarrow>
          (case askForIndexes d (tName from) (all @ indexAdd (Indexes from) (Indexes to) exists) opts of
             Inl e \<Rightarrow> Inl e
           | Inr all' \<Rightarrow> Inr (addAll opts all')))"

subsection \<open>Foreign-key change\<close>

definition fkChange :: "('z DiffDriver_scheme) \<Rightarrow> ForeignKey \<Rightarrow> ForeignKey \<Rightarrow> ChangeKind" where
  "fkChange d from to =
     (let change =
            (if RefTable from \<noteq> RefTable to then ChangeRefTable OR ChangeRefColumn
             else if length (RefColumns from) \<noteq> length (RefColumns to) then ChangeRefColumn
             else if map cName (RefColumns from) \<noteq> map cName (RefColumns to) then ChangeRefColumn
             else NoChange);
          change =
            (if length (fkColumns from) \<noteq> length (fkColumns to) then change OR ChangeColumn
             else if map cName (fkColumns from) \<noteq> map cName (fkColumns to) then change OR ChangeColumn
             else change);
          change = (if ReferenceChanged d (OnUpdate from) (OnUpdate to)
                    then change OR ChangeUpdateAction else change);
          change = (if ReferenceChanged d (OnDelete from) (OnDelete to)
                    then change OR ChangeDeleteAction else change);
          change = (if ForeignKeyAttrChanged d (fkAttrs from) (fkAttrs to)
                    then change OR ChangeAttr else change)
      in change)"

fun fkDropModify :: "('z DiffDriver_scheme) \<Rightarrow> Table \<Rightarrow> DiffOptions \<Rightarrow> ForeignKey list \<Rightarrow> Change list
                     \<Rightarrow> Change list" where
  "fkDropModify d to opts [] changes = changes"
| "fkDropModify d to opts (fk1 # rest) changes =
     (case lookupForeignKey to (Symbol fk1) of
        None \<Rightarrow> fkDropModify d to opts rest (AddOrSkip opts changes [DropForeignKey fk1])
      | Some fk2 \<Rightarrow>
          (let change = fkChange d fk1 fk2 in
           fkDropModify d to opts rest
             (if change \<noteq> NoChange then AddOrSkip opts changes [ModifyForeignKey fk1 fk2 change]
              else changes)))"

definition fkAdd :: "Table \<Rightarrow> Table \<Rightarrow> DiffOptions \<Rightarrow> Change list \<Rightarrow> Change list" where
  "fkAdd from to opts changes =
     foldl (\<lambda>changes fk1.
              if lookupForeignKey from (Symbol fk1) = None
              then AddOrSkip opts changes [AddForeignKey fk1] else changes)
       changes (ForeignKeys to)"

subsection \<open>Table diff\<close>

text \<open>
  \<^verbatim>\<open>tableDiff\<close> gives \<open>from\<close> the name of \<open>to\<close> for the duration of the call. The optional
  \<^verbatim>\<open>Normalize\<close> works on the two tables in place; the model passes the tables it returns to the
  rest of the function.
\<close>

definition tableDiff :: "('z Diff_scheme) \<Rightarrow> Table \<Rightarrow> Table \<Rightarrow> DiffOptions \<Rightarrow> diff_error + Change list" where
  "tableDiff d from0 to0 opts =
     (let from1 = (if tName from0 \<noteq> tName to0 then from0\<lparr>tName := tName to0\<rparr> else from0) in
      case (case Normalize d of None \<Rightarrow> Inr (from1, to0) | Some n \<Rightarrow> n from1 to0 opts) of
        Inl e \<Rightarrow> Inl e
      | Inr (from, to) \<Rightarrow>
          (case TableAttrDiff d from to opts of
             Inl e \<Rightarrow> Inl e
           | Inr attrs \<Rightarrow>
               (case columnDiff d from to opts of
                  Inl e \<Rightarrow> Inl e
                | Inr cols \<Rightarrow>
                    (case indexDiffT d from to opts of
                       Inl e \<Rightarrow> Inl e
                     | Inr idxs \<Rightarrow>
                         Inr (fkAdd from to opts
                                (fkDropModify d to opts (ForeignKeys from)
                                   (attrs @ cols @ pkDiff d from to opts @ idxs)))))))"

subsection \<open>View diff\<close>

definition TrimViewExtra :: "string \<Rightarrow> string" where
  "TrimViewExtra s =
     (let cut = (\<lambda>c. c = CHR '' '' \<or> c = CHR 0x0D \<or> c = CHR 0x0A \<or> c = CHR 0x09 \<or> c = CHR '';'')
      in rev (dropWhile cut (rev (dropWhile cut s))))"

text \<open>\<^verbatim>\<open>strings.Split(v, "\n")\<close>: the lines of \<open>v\<close>, at least one.\<close>

fun splitLines :: "string \<Rightarrow> string list" where
  "splitLines [] = [[]]"
| "splitLines (c # cs) =
     (if c = CHR 0x0A then [] # splitLines cs
      else (case splitLines cs of [] \<Rightarrow> [[c]] | l # ls \<Rightarrow> (c # l) # ls))"

definition noident :: "string \<Rightarrow> string" where
  "noident v =
     concat (map (\<lambda>(i, s). let s' = TrimViewExtra s in
                    (if s' \<noteq> [] \<and> i > 0 then '' '' else []) @ s')
               (zip [0 ..< length (splitLines v)] (splitLines v)))"

definition BodyDefChanged :: "string \<Rightarrow> string \<Rightarrow> bool" where
  "BodyDefChanged from to =
     (if from = to then False
      else if TrimViewExtra from = TrimViewExtra to then False
      else noident (TrimViewExtra from) \<noteq> noident (TrimViewExtra to))"

definition viewDefChanged :: "('z DiffDriver_scheme) \<Rightarrow> View \<Rightarrow> View \<Rightarrow> bool" where
  "viewDefChanged d v1 v2 =
     (case ViewDefChanged d of Some f \<Rightarrow> f v1 v2 | None \<Rightarrow> BodyDefChanged (Def v1) (Def v2))"

fun columnDiffV_loop :: "View \<Rightarrow> DiffOptions \<Rightarrow> Column list \<Rightarrow> Change list \<Rightarrow> Change list" where
  "columnDiffV_loop to opts [] changes = changes"
| "columnDiffV_loop to opts (c1 # cs) changes =
     (case lookupViewColumn to (cName c1) of
        None \<Rightarrow> columnDiffV_loop to opts cs changes
      | Some c2 \<Rightarrow>
          (let change = CommentChange (cAttrs c1) (cAttrs c2) in
           columnDiffV_loop to opts cs
             (if change \<noteq> NoChange then AddOrSkip opts changes [ModifyColumn c1 c2 change]
              else changes)))"

definition columnDiffV :: "View \<Rightarrow> View \<Rightarrow> DiffOptions \<Rightarrow> Change list" where
  "columnDiffV from to opts = columnDiffV_loop to opts (vColumns from) []"

fun indexDropModifyV :: "('z DiffDriver_scheme) \<Rightarrow> View \<Rightarrow> DiffOptions \<Rightarrow> Index list \<Rightarrow> Change list \<Rightarrow> nat list
                         \<Rightarrow> Change list \<times> nat list" where
  "indexDropModifyV d to opts [] changes exists = (changes, exists)"
| "indexDropModifyV d to opts (idx1 # rest) changes exists =
     (case lookupIndexPos (vIndexes to) (iName idx1) of
        Some p \<Rightarrow>
          (let idx2 = vIndexes to ! p; change = indexChange d idx1 idx2 in
           indexDropModifyV d to opts rest
             (if change \<noteq> NoChange then AddOrSkip opts changes [ModifyIndex idx1 idx2 change]
              else changes)
             (p # exists))
      | None \<Rightarrow> indexDropModifyV d to opts rest (AddOrSkip opts changes [DropIndex idx1]) exists)"

definition indexDiffV :: "('z Diff_scheme) \<Rightarrow> View \<Rightarrow> View \<Rightarrow> DiffOptions \<Rightarrow> diff_error + Change list" where
  "indexDiffV d from to opts =
     (case indexDropModifyV d to opts (vIndexes from) [] [] of
        (changes, exists) \<Rightarrow>
          askForIndexes d (vName from)
            (AddOrSkip opts changes (indexAdd (vIndexes from) (vIndexes to) exists)) opts)"

definition viewDiff :: "('z Diff_scheme) \<Rightarrow> View \<Rightarrow> View \<Rightarrow> DiffOptions \<Rightarrow> diff_error + Change list" where
  "viewDiff d from to opts =
     (case indexDiffV d from to opts of
        Inl e \<Rightarrow> Inl e
      | Inr c1 \<Rightarrow>
          (let c2 = columnDiffV from to opts;
               vs = ViewAttrChanges d from to @ c1 @ c2 in
           Inr (if vs \<noteq> [] \<or> viewDefChanged d from to
                then AddOrSkip opts [] [ModifyView from to vs] else [])))"

definition findView :: "Schema \<Rightarrow> View \<Rightarrow> View option" where
  "findView s v1 = (if Materialized v1 then lookupMaterialized s (vName v1) else lookupView s (vName v1))"

subsection \<open>Schema diff\<close>

definition findTable :: "('z DiffDriver_scheme) \<Rightarrow> Schema \<Rightarrow> Table \<Rightarrow> diff_error + Table" where
  "findTable d s t1 =
     (case FindTable d of
        Some f \<Rightarrow> f s t1
      | None \<Rightarrow>
          (case lookupTable s (tName t1) of
             None \<Rightarrow> Inl (NotExistError (tName t1))
           | Some t2 \<Rightarrow> Inr t2))"

definition IsNotExistError :: "diff_error \<Rightarrow> bool" where
  "IsNotExistError e = (case e of NotExistError _ \<Rightarrow> True | _ \<Rightarrow> False)"

definition addTableChange :: "Table \<Rightarrow> Change list" where
  "addTableChange t = AddTable t # map AddTrigger (tTriggers t)"

definition addViewChange :: "View \<Rightarrow> Change list" where
  "addViewChange v = AddView v # map AddTrigger (vTriggers v)"

fun tablesDropModify :: "('z Diff_scheme) \<Rightarrow> Schema \<Rightarrow> DiffOptions \<Rightarrow> Table list \<Rightarrow> Change list
                         \<Rightarrow> diff_error + Change list" where
  "tablesDropModify d to opts [] changes = Inr changes"
| "tablesDropModify d to opts (t1 # rest) changes =
     (case findTable d to t1 of
        Inl e \<Rightarrow>
          (if IsNotExistError e
           then tablesDropModify d to opts rest (AddOrSkip opts changes [DropTable t1])
           else Inl e)
      | Inr t2 \<Rightarrow>
          (case tableDiff d t1 t2 opts of
             Inl e \<Rightarrow> Inl e
           | Inr change \<Rightarrow>
               (case triggerDiff d (OnTable t1) (OnTable t2) (tTriggers t1) (tTriggers t2) opts of
                  Inl e \<Rightarrow> Inl e
                | Inr trg \<Rightarrow>
                    tablesDropModify d to opts rest
                      ((if change \<noteq> [] then AddOrSkip opts changes [ModifyTable t2 change]
                        else changes) @ trg))))"

fun tablesAdd :: "('z Diff_scheme) \<Rightarrow> Schema \<Rightarrow> DiffOptions \<Rightarrow> Table list \<Rightarrow> Change list
                  \<Rightarrow> diff_error + Change list" where
  "tablesAdd d from opts [] changes = Inr changes"
| "tablesAdd d from opts (t1 # rest) changes =
     (case findTable d from t1 of
        Inl e \<Rightarrow>
          (if IsNotExistError e
           then tablesAdd d from opts rest (AddOrSkip opts changes (addTableChange t1))
           else Inl e)
      | Inr _ \<Rightarrow> tablesAdd d from opts rest changes)"

fun viewsDropModify :: "('z Diff_scheme) \<Rightarrow> Schema \<Rightarrow> DiffOptions \<Rightarrow> View list \<Rightarrow> Change list
                        \<Rightarrow> diff_error + Change list" where
  "viewsDropModify d to opts [] changes = Inr changes"
| "viewsDropModify d to opts (v1 # rest) changes =
     (case findView to v1 of
        None \<Rightarrow> viewsDropModify d to opts rest (AddOrSkip opts changes [DropView v1])
      | Some v2 \<Rightarrow>
          (case viewDiff d v1 v2 opts of
             Inl e \<Rightarrow> Inl e
           | Inr change \<Rightarrow>
               (case triggerDiff d (OnView v1) (OnView v2) (vTriggers v1) (vTriggers v2) opts of
                  Inl e \<Rightarrow> Inl e
                | Inr trg \<Rightarrow> viewsDropModify d to opts rest (changes @ change @ trg))))"

definition viewsAdd :: "Schema \<Rightarrow> Schema \<Rightarrow> DiffOptions \<Rightarrow> Change list \<Rightarrow> Change list" where
  "viewsAdd from to opts changes =
     foldl (\<lambda>changes v1.
              if findView from v1 = None then AddOrSkip opts changes (addViewChange v1)
              else changes)
       changes (Views to)"

definition schemaDiff :: "('z Diff_scheme) \<Rightarrow> Schema \<Rightarrow> Schema \<Rightarrow> DiffOptions \<Rightarrow> diff_error + Change list" where
  "schemaDiff d from to opts =
     (if sName from \<noteq> sName to then Inl (MismatchedSchemaNames (sName from) (sName to))
      else
        (let change = SchemaAttrDiff d from to;
             changes = (if change \<noteq> [] then AddOrSkip opts [] [ModifySchema to change] else []) in
         case SchemaObjectDiff d from to opts of
           Inl e \<Rightarrow> Inl e
         | Inr objs \<Rightarrow>
             (case tablesDropModify d to opts (Tables from) (AddOrSkip opts changes objs) of
                Inl e \<Rightarrow> Inl e
              | Inr changes \<Rightarrow>
                  (case tablesAdd d from opts (Tables to) (fixRenames d changes) of
                     Inl e \<Rightarrow> Inl e
                   | Inr changes \<Rightarrow>
                       (case viewsDropModify d to opts (Views from) changes of
                          Inl e \<Rightarrow> Inl e
                        | Inr changes \<Rightarrow>
                            (let changes = viewsAdd from to opts changes in
                             case ProcFuncsDiff d of
                               None \<Rightarrow> Inr changes
                             | Some pf \<Rightarrow>
                                 (case pf from to opts of
                                    Inl e \<Rightarrow> Inl e
                                  | Inr change \<Rightarrow> Inr (changes @ change))))))))"

definition mayAnnotate :: "('z DiffDriver_scheme) \<Rightarrow> Change list \<Rightarrow> DiffOptions \<Rightarrow> diff_error + Change list" where
  "mayAnnotate d changes opts =
     (case AnnotateChanges d of None \<Rightarrow> Inr changes | Some r \<Rightarrow> r changes opts)"

definition SchemaDiff :: "('z Diff_scheme) \<Rightarrow> Schema \<Rightarrow> Schema \<Rightarrow> DiffOptions \<Rightarrow> diff_error + Change list" where
  "SchemaDiff d from to opts =
     (case schemaDiff d from to opts of
        Inl e \<Rightarrow> Inl e
      | Inr changes \<Rightarrow> mayAnnotate d changes opts)"

definition twoUnnamed :: Table where
  "twoUnnamed = tableOf ''t'' [colOf ''a'', colOf ''b'']
     None [indexOf [] [colPart 1 ''a''], indexOf [] [colPart 1 ''b'']]"

definition schemaOf :: "string \<Rightarrow> Table list \<Rightarrow> Schema" where
  "schemaOf n ts = \<lparr> sName = n, sAttrs = [], Tables = ts, Views = [] \<rparr>"

subsection \<open>Predicates used in the statements about the differ\<close>

text \<open>
  What the source's \<^verbatim>\<open>switch\<close> in \<^verbatim>\<open>partsChange\<close> accepts for one pair of parts whose Desc flags and
  part attributes agree: two column parts with equal names or names related by the rename
  map; otherwise two expression parts whose raw strings are equal or where the expression of
  the first index is \<open>MayWrap\<close> of the expression of the second.
\<close>

definition partsEqual :: "(string \<rightharpoonup> string) \<Rightarrow> IndexPart \<Rightarrow> IndexPart \<Rightarrow> bool" where
  "partsEqual renames p q \<longleftrightarrow>
     (if C p \<noteq> None \<and> C q \<noteq> None
      then cName (the (C p)) = cName (the (C q))
           \<or> renamed renames (cName (the (C p))) = cName (the (C q))
      else X p \<noteq> None \<and> X q \<noteq> None
           \<and> (the (X p) = the (X q) \<or> the (X p) = MayWrap (the (X q))))"

text \<open>
  The driver and the helper methods report no change on identical inputs. For the optional
  interfaces the condition applies when the driver implements them: the normalizer leaves two
  identical tables as they are, the table finder finds a table of the schema itself, the
  annotator accepts the empty change list.
\<close>

definition reflexiveDiff :: "('z Diff_scheme) \<Rightarrow> bool" where
  "reflexiveDiff d \<longleftrightarrow>
     (\<forall>s. SchemaAttrDiff d s s = [])
   \<and> (\<forall>s opts. SchemaObjectDiff d s s opts = Inr [])
   \<and> (\<forall>t opts. TableAttrDiff d t t opts = Inr [])
   \<and> (\<forall>v. ViewAttrChanges d v v = [])
   \<and> (\<forall>t c opts. ColumnChange d t c c opts = Inr None)
   \<and> (\<forall>a. \<not> IndexAttrChanged d a a)
   \<and> (\<forall>i k. k < length (Parts i) \<longrightarrow> \<not> IndexPartAttrChanged d i i k)
   \<and> (\<forall>r. \<not> ReferenceChanged d r r)
   \<and> (\<forall>a. \<not> ForeignKeyAttrChanged d a a)
   \<and> (\<forall>n t opts. Normalize d = Some n \<longrightarrow> n t t opts = Inr (t, t))
   \<and> (\<forall>f s t. FindTable d = Some f \<longrightarrow> t \<in> set (Tables s) \<longrightarrow> f s t = Inr t)
   \<and> (\<forall>r opts. AnnotateChanges d = Some r \<longrightarrow> r [] opts = Inr [])
   \<and> (\<forall>pf s opts. ProcFuncsDiff d = Some pf \<longrightarrow> pf s s opts = Inr [])
   \<and> (\<forall>f v. ViewDefChanged d = Some f \<longrightarrow> \<not> f v v)
   \<and> (\<forall>ow ts opts. triggerDiff d ow ow ts ts opts = Inr [])
   \<and> fixRenames d [] = []
   \<and> (\<forall>t opts. askForColumns d t [] opts = Inr [])
   \<and> (\<forall>n opts. askForIndexes d n [] opts = Inr [])"

text \<open>
  Names identify the elements of a schema: tables, views of one kind, and within a table or a
  view the columns, indexes and foreign keys have pairwise distinct names (so a table has at
  most one unnamed index); every index part carries a column or an expression.
\<close>

definition wfIndex :: "Index \<Rightarrow> bool" where
  "wfIndex i \<longleftrightarrow> (\<forall>p \<in> set (Parts i). C p \<noteq> None \<or> X p \<noteq> None)"

definition wfTable :: "Table \<Rightarrow> bool" where
  "wfTable t \<longleftrightarrow>
     distinct (map cName (Columns t))
   \<and> distinct (map iName (Indexes t))
   \<and> distinct (map Symbol (ForeignKeys t))
   \<and> (\<forall>i \<in> set (Indexes t). wfIndex i)
   \<and> (case PrimaryKey t of None \<Rightarrow> True | Some pk \<Rightarrow> wfIndex pk)"

definition wfView :: "View \<Rightarrow> bool" where
  "wfView v \<longleftrightarrow>
     distinct (map cName (vColumns v))
   \<and> distinct (map iName (vIndexes v))
   \<and> (\<forall>i \<in> set (vIndexes v). wfIndex i)"

definition wfSchema :: "Schema \<Rightarrow> bool" where
  "wfSchema s \<longleftrightarrow>
     distinct (map tName (Tables s))
   \<and> distinct (map (\<lambda>v. (vName v, Materialized v)) (Views s))
   \<and> (\<forall>t \<in> set (Tables s). wfTable t)
   \<and> (\<forall>v \<in> set (Views s). wfView v)"

definition twoNamed :: Table where
  "twoNamed = tableOf ''t'' [colOf ''a'', colOf ''b'']
     (Some pkA) [indexOf ''i1'' [colPart 1 ''a''], indexOf ''i2'' [colPart 1 ''b'']]"

section \<open>The SQLite driver's lock (package sqlite, driver.go)\<close>

subsection \<open>Numbers in the lock file\<close>









subsection \<open>Files and the lock\<close>

text \<open>
  The file system as far as \<^verbatim>\<open>Lock\<close> touches it: a path is missing, holds a file with its
  content, or cannot be read or created (any error of \<^verbatim>\<open>os.ReadFile\<close> or \<^verbatim>\<open>os.Create\<close> other than
  "not exist"). \<^verbatim>\<open>os.TempDir()\<close> and \<^verbatim>\<open>os.UserCacheDir()\<close> are values of the environment.
\<close>

datatype entry = Missing | Denied | File string






















section \<open>The client registry and its hooks (package sqlclient)\<close>




datatype client_error =
    OpenInsideHook
  | BeginInsideHook
  | MissingDriver
  | UnknownDriver string
  | ErrUnsupported
  | NoDriverOpener
  | StartingTransaction client_error
  | OpeningAtlasDriver client_error
  | Failure string
  | Joined "client_error list"























section \<open>Migration directory, revisions and executor (package migrate)\<close>

text \<open>
  The executor, the planner and the migration directory of package \<^verbatim>\<open>sql/migrate\<close> are not
  among the sources; their tests (\<^verbatim>\<open>TestExecutor\<close>, \<^verbatim>\<open>TestExecutor_ExecOrderLinear\<close>,
  \<^verbatim>\<open>TestExecutor_Baseline\<close>, \<^verbatim>\<open>TestPlanner_WriteCheckpoint\<close>) with their mock driver and mock
  revision store are. The mocks are modelled from the source; the executor is modelled from
  the spec, and where the spec leaves a choice the model follows what the tests expect.
\<close>

subsection \<open>The mock driver and the mock revision store of the tests\<close>

record mockDriver =
  failCounter :: int
  failWith :: string
  executed :: "string list"
  dirty :: bool

definition newMockDriver :: mockDriver where
  "newMockDriver = \<lparr> failCounter = 0, failWith = [], executed = [], dirty = False \<rparr>"


text \<open>\<^verbatim>\<open>ExecContext\<close>: the error (if any) and the driver afterwards.\<close>

definition ExecContext :: "mockDriver \<Rightarrow> string \<Rightarrow> string option \<times> mockDriver" where
  "ExecContext m query =
     (if failCounter m > 0 then
        (let m' = m\<lparr> failCounter := failCounter m - 1 \<rparr> in
         if failCounter m' = 0 then (Some (failWith m'), m')
         else (None, m'\<lparr> executed := executed m' @ [query] \<rparr>))
      else (None, m\<lparr> executed := executed m @ [query] \<rparr>))"

definition mock_CheckClean :: "mockDriver \<Rightarrow> string option" where
  "mock_CheckClean m = (if dirty m then Some ''found table'' else None)"

text \<open>
  A revision, without the two time stamps. \<open>rType\<close> is the bitset Baseline | Execute |
  Resolved.
\<close>

record Revision =
  rVersion :: string
  Description :: string
  rType :: nat
  Applied :: nat
  Total :: nat
  rHash :: string
  PartialHashes :: "string list"
  Error :: string
  ErrorStmt :: string
  OperatorVersion :: string

definition RevisionTypeBaseline :: nat where "RevisionTypeBaseline = 1"
definition RevisionTypeExecute :: nat where "RevisionTypeExecute = 2"
definition RevisionTypeResolved :: nat where "RevisionTypeResolved = 4"

fun WriteRevision :: "Revision list \<Rightarrow> Revision \<Rightarrow> Revision list" where
  "WriteRevision [] r = [r]"
| "WriteRevision (r0 # rrw) r =
     (if rVersion r0 = rVersion r then r # rrw else r0 # WriteRevision rrw r)"

fun ReadRevision :: "Revision list \<Rightarrow> string \<Rightarrow> Revision option" where
  "ReadRevision [] v = None"
| "ReadRevision (r # rrw) v = (if rVersion r = v then Some r else ReadRevision rrw v)"

subsection \<open>Migration files and directory\<close>

record File =
  fName :: string
  fBytes :: string

text \<open>
  Modelled from the spec: a file name is \<^verbatim>\<open><version>_<slug>.sql\<close>; the version is the prefix of
  the name, the description the remainder without the extension. (The tests also use names
  without a slug, such as \<^verbatim>\<open>2.5.sql\<close>, whose version is \<^verbatim>\<open>2.5\<close>.)
\<close>

definition trimSql :: "string \<Rightarrow> string" where
  "trimSql n = (if length n \<ge> 4 \<and> drop (length n - 4) n = ''.sql'' then take (length n - 4) n else n)"

definition Version :: "File \<Rightarrow> string" where
  "Version f = takeWhile (\<lambda>c. c \<noteq> CHR ''_'') (trimSql (fName f))"

definition Desc_of :: "File \<Rightarrow> string" where
  "Desc_of f = (case dropWhile (\<lambda>c. c \<noteq> CHR ''_'') (trimSql (fName f)) of [] \<Rightarrow> [] | _ # d \<Rightarrow> d)"

text \<open>
  Modelled from the spec: a file starts with optional directive lines that begin with
  \<^verbatim>\<open>-- atlas:\<close>; the first line that is not a directive ends the header. A file is a checkpoint
  when its header holds a \<^verbatim>\<open>checkpoint\<close> directive.
\<close>

definition isPrefix :: "string \<Rightarrow> string \<Rightarrow> bool" where
  "isPrefix p s \<longleftrightarrow> take (length p) s = p"

definition header :: "string \<Rightarrow> string list" where
  "header bytes = takeWhile (isPrefix ''-- atlas:'') (splitLines bytes)"

definition IsCheckpoint :: "File \<Rightarrow> bool" where
  "IsCheckpoint f \<longleftrightarrow> list_ex (isPrefix ''-- atlas:checkpoint'') (header (fBytes f))"

text \<open>
  Modelled from the spec: the directory is an ordered file set with an integrity manifest,
  whose first line is a global hash and whose other lines are \<^verbatim>\<open><filename> h1:<hash>\<close>, one per
  file; the global hash is the hash of the concatenation of the per-file lines; files are
  ordered lexically by their version. The hash function is a parameter.
\<close>

record Dir =
  dFiles :: "File list"
  dSum :: "(string \<times> (string \<times> string) list) option"

definition Files :: "Dir \<Rightarrow> File list" where
  "Files d = sort_key Version (dFiles d)"

definition Checksum :: "(string \<Rightarrow> string) \<Rightarrow> File list \<Rightarrow> string \<times> (string \<times> string) list" where
  "Checksum H fs =
     (let entries = map (\<lambda>f. (fName f, H (fBytes f))) fs in
      (H (concat (map (\<lambda>(n, h). n @ '' h1:'' @ h @ [CHR 0x0A]) entries)), entries))"

definition WriteSumFile :: "(string \<Rightarrow> string) \<Rightarrow> Dir \<Rightarrow> Dir" where
  "WriteSumFile H d = d\<lparr> dSum := Some (Checksum H (Files d)) \<rparr>"

definition Validate :: "(string \<Rightarrow> string) \<Rightarrow> Dir \<Rightarrow> bool" where
  "Validate H d \<longleftrightarrow> dSum d = Some (Checksum H (Files d))"

subsection \<open>Planner: WritePlan and WriteCheckpoint\<close>

record PlanChange =
  Cmd :: string
  Reverse :: string

record Plan =
  pName :: string
  pChanges :: "PlanChange list"
  Delimiter :: string

text \<open>
  Modelled from the spec: the content of a plan file is the concatenation of each \<^verbatim>\<open>Cmd\<close>
  followed by the delimiter (\<^verbatim>\<open>;\<close> by default) and a newline; a non-default delimiter is
  announced by the directive \<^verbatim>\<open>-- atlas:delimiter\<close> (with the delimiter escaped, here by
  \<open>escape\<close>) followed by an empty line. A checkpoint file has \<^verbatim>\<open>-- atlas:checkpoint <tag>\<close> as its
  first directive, followed by an empty line when no other directive follows, as
  \<^verbatim>\<open>TestPlanner_WriteCheckpoint\<close> expects.
\<close>

definition planBody :: "(string \<Rightarrow> string) \<Rightarrow> Plan \<Rightarrow> string" where
  "planBody escape p =
     (if Delimiter p = [] \<or> Delimiter p = '';''
      then concat (map (\<lambda>c. Cmd c @ '';'' @ [CHR 0x0A]) (pChanges p))
      else ''-- atlas:delimiter '' @ escape (Delimiter p) @ [CHR 0x0A, CHR 0x0A]
           @ concat (map (\<lambda>c. Cmd c @ Delimiter p @ [CHR 0x0A]) (pChanges p)))"

definition checkpointBytes :: "(string \<Rightarrow> string) \<Rightarrow> Plan \<Rightarrow> string \<Rightarrow> string" where
  "checkpointBytes escape p tag =
     ''-- atlas:checkpoint '' @ tag @ [CHR 0x0A]
     @ (if Delimiter p = [] \<or> Delimiter p = '';'' then [CHR 0x0A] else [])
     @ planBody escape p"

definition WriteCheckpoint :: "(string \<Rightarrow> string) \<Rightarrow> (string \<Rightarrow> string) \<Rightarrow> Dir \<Rightarrow> string \<Rightarrow> Plan \<Rightarrow> string \<Rightarrow> Dir" where
  "WriteCheckpoint H escape d version p tag =
     WriteSumFile H
       (d\<lparr> dFiles := dFiles d @ [\<lparr> fName = version @ ''_'' @ pName p @ ''.sql'',
                                    fBytes = checkpointBytes escape p tag \<rparr>] \<rparr>)"

subsection \<open>Executor\<close>

datatype ExecOrder = ExecOrderLinear | ExecOrderLinearSkip | ExecOrderNonLinear

datatype exec_error =
    ErrChecksumMismatch
  | ErrNoPendingFiles
  | HistoryNonLinearError "string list"
  | HistoryChangedError string
  | NotCleanError string
  | BaselineNotFound string
  | StmtError string string

record Stmt =
  stText :: string
  stComments :: "string list"
  stPos :: nat

text \<open>
  Modelled from the spec: the executor with its inputs: directory, driver (statement scanner,
  statement execution, clean check; \<open>'d\<close> is the state of the driver and of the database behind
  it) and the options OperatorVersion, BaselineVersion, AllowDirty and ExecOrder. The revision
  store is the list of the mock store.
\<close>

record 'd Executor =
  exDir :: Dir
  exHash :: "string \<Rightarrow> string"
  ScanStmts :: "string \<Rightarrow> Stmt list"
  execStmt :: "'d \<Rightarrow> string \<Rightarrow> string option \<times> 'd"
  CheckClean :: "'d \<Rightarrow> string option"
  exOperatorVersion :: string
  BaselineVersion :: string
  AllowDirty :: bool
  exOrder :: ExecOrder

text \<open>
  Modelled from the spec (Preflight): the highest applied version; a file whose revision has
  \<open>Applied < Total\<close> is partial and is resumed; a file without revision whose version is below
  the highest applied version is out of order. The tests add that files older than the
  oldest revision are neither pending nor out of order (\<^verbatim>\<open>TestExecutor_ExecOrderLinear\<close>: with
  revisions 2 and 3, file 1.sql is never reported and never pending).
\<close>

definition highest :: "Revision list \<Rightarrow> string" where
  "highest revs = fold max (map rVersion revs) []"

definition lowest :: "Revision list \<Rightarrow> string" where
  "lowest revs = (case revs of [] \<Rightarrow> [] | r # rs \<Rightarrow> fold min (map rVersion rs) (rVersion r))"

definition isPartial :: "Revision list \<Rightarrow> string \<Rightarrow> bool" where
  "isPartial revs v = (case ReadRevision revs v of None \<Rightarrow> False | Some r \<Rightarrow> Applied r < Total r)"

definition outOfOrder :: "Revision list \<Rightarrow> File \<Rightarrow> bool" where
  "outOfOrder revs f \<longleftrightarrow>
     ReadRevision revs (Version f) = None \<and> lowest revs \<le> Version f \<and> Version f < highest revs"

definition isPending :: "ExecOrder \<Rightarrow> Revision list \<Rightarrow> File \<Rightarrow> bool" where
  "isPending order revs f \<longleftrightarrow>
     isPartial revs (Version f) \<or> highest revs < Version f
     \<or> (order = ExecOrderNonLinear \<and> outOfOrder revs f)"

definition nonEmpty :: "File list \<Rightarrow> exec_error + File list" where
  "nonEmpty fs = (if fs = [] then Inl ErrNoPendingFiles else Inr fs)"

text \<open>
  Modelled from the spec (checkpoints): all files before a checkpoint file are superseded, so
  on a first run the pending files start at the last checkpoint of the directory.
\<close>

fun fromLastCheckpoint :: "File list \<Rightarrow> File list" where
  "fromLastCheckpoint [] = []"
| "fromLastCheckpoint (f # fs) = (if list_ex IsCheckpoint fs then fromLastCheckpoint fs else f # fs)"

fun afterVersion :: "string \<Rightarrow> File list \<Rightarrow> (File \<times> File list) option" where
  "afterVersion v [] = None"
| "afterVersion v (f # fs) = (if Version f = v then Some (f, fs) else afterVersion v fs)"

definition baselineRevision :: "File \<Rightarrow> Revision" where
  "baselineRevision f =
     \<lparr> rVersion = Version f, Description = Desc_of f, rType = RevisionTypeBaseline,
       Applied = 0, Total = 0, rHash = [], PartialHashes = [], Error = [], ErrorStmt = [],
       OperatorVersion = [] \<rparr>"

definition firstRunPending :: "'d Executor \<Rightarrow> File list \<Rightarrow> (exec_error + File list) \<times> Revision list" where
  "firstRunPending e migrations =
     (if BaselineVersion e \<noteq> [] then
        (case afterVersion (BaselineVersion e) migrations of
           None \<Rightarrow> (Inl (BaselineNotFound (BaselineVersion e)), [])
         | Some (f, rest) \<Rightarrow> (nonEmpty rest, WriteRevision [] (baselineRevision f)))
      else (nonEmpty (fromLastCheckpoint migrations), []))"

definition laterPending :: "'d Executor \<Rightarrow> File list \<Rightarrow> Revision list \<Rightarrow> exec_error + File list" where
  "laterPending e migrations revs =
     (if exOrder e = ExecOrderLinear \<and> filter (outOfOrder revs) migrations \<noteq> []
      then Inl (HistoryNonLinearError (map fName (filter (outOfOrder revs) migrations)))
      else nonEmpty (filter (isPending (exOrder e) revs) migrations))"

definition Pending :: "'d Executor \<Rightarrow> 'd \<Rightarrow> Revision list \<Rightarrow> (exec_error + File list) \<times> Revision list" where
  "Pending e d revs =
     (if \<not> Validate (exHash e) (exDir e) then (Inl ErrChecksumMismatch, revs)
      else
        (let migrations = Files (exDir e) in
         if migrations = [] then (Inl ErrNoPendingFiles, revs)
         else if revs = [] then
           (case CheckClean e d of
              Some reason \<Rightarrow>
                if \<not> AllowDirty e \<and> BaselineVersion e = [] then (Inl (NotCleanError reason), revs)
                else firstRunPending e migrations
            | None \<Rightarrow> firstRunPending e migrations)
         else (laterPending e migrations revs, revs)))"

text \<open>
  Modelled from the spec (ExecuteN, steps 1 to 5). \<open>runStmts ex d stmts i\<close> executes the
  statements in order through the driver, counting from \<open>i\<close> statements already applied; it
  stops at the first failure and returns the number of statements applied, the failing
  statement with its error, and the driver afterwards.
\<close>

fun runStmts :: "('d \<Rightarrow> string \<Rightarrow> string option \<times> 'd) \<Rightarrow> 'd \<Rightarrow> Stmt list \<Rightarrow> nat
                 \<Rightarrow> nat \<times> (Stmt \<times> string) option \<times> 'd" where
  "runStmts ex d [] i = (i, None, d)"
| "runStmts ex d (s # ss) i =
     (case ex d (stText s) of
        (Some msg, d') \<Rightarrow> (i, Some (s, msg), d')
      | (None, d') \<Rightarrow> runStmts ex d' ss (Suc i))"

definition stmtHash :: "(string \<Rightarrow> string) \<Rightarrow> Stmt \<Rightarrow> string" where
  "stmtHash H s = H (concat (stComments s) @ stText s)"

text \<open>
  The revision written when a file is started. The spec lists Applied, Total, the file hash
  and the partial hashes; \<^verbatim>\<open>TestExecutor\<close> expects the revision of a failed file to carry the
  description, the type Execute and the operator version as well.
\<close>

definition initialRevision :: "'d Executor \<Rightarrow> File \<Rightarrow> Stmt list \<Rightarrow> Revision" where
  "initialRevision e f stmts =
     \<lparr> rVersion = Version f, Description = Desc_of f, rType = RevisionTypeExecute,
       Applied = 0, Total = length stmts, rHash = exHash e (fBytes f),
       PartialHashes = map (stmtHash (exHash e)) stmts, Error = [], ErrorStmt = [],
       OperatorVersion = exOperatorVersion e \<rparr>"

text \<open>
  Step 2: the revision to continue from, or HistoryChanged when the first \<open>Applied\<close> partial
  hashes of a partial revision do not match the first \<open>Applied\<close> statements of the file.
\<close>

definition startRevision :: "'d Executor \<Rightarrow> File \<Rightarrow> Stmt list \<Rightarrow> Revision list \<Rightarrow> exec_error + Revision" where
  "startRevision e f stmts revs =
     (case ReadRevision revs (Version f) of
        None \<Rightarrow> Inr (initialRevision e f stmts)
      | Some r \<Rightarrow>
          if Applied r < Total r then
            (let hs = map (stmtHash (exHash e)) stmts in
             if Applied r \<le> length hs \<and> Applied r \<le> length (PartialHashes r)
                \<and> take (Applied r) (PartialHashes r) = take (Applied r) hs
             then Inr r else Inl (HistoryChangedError (fName f)))
          else Inr (initialRevision e f stmts))"

definition executeFile :: "'d Executor \<Rightarrow> File \<Rightarrow> 'd \<Rightarrow> Revision list \<Rightarrow> exec_error option \<times> 'd \<times> Revision list" where
  "executeFile e f d revs =
     (let stmts = ScanStmts e (fBytes f) in
      case startRevision e f stmts revs of
        Inl err \<Rightarrow> (Some err, d, revs)
      | Inr r \<Rightarrow>
          (case runStmts (execStmt e) d (drop (Applied r) stmts) (Applied r) of
             (i, Some (s, msg), d') \<Rightarrow>
               (Some (StmtError (stText s) msg), d',
                WriteRevision revs (r\<lparr> Applied := i, Error := msg, ErrorStmt := stText s \<rparr>))
           | (i, None, d') \<Rightarrow>
               (None, d',
                WriteRevision revs
                  (r\<lparr> Applied := Total r, Error := [], ErrorStmt := [], PartialHashes := [],
                      rType := (if (rType r div 2) mod 2 = 1 then rType r else rType r + RevisionTypeExecute),
                      OperatorVersion := exOperatorVersion e \<rparr>))))"

fun executeFiles :: "'d Executor \<Rightarrow> File list \<Rightarrow> 'd \<Rightarrow> Revision list \<Rightarrow> exec_error option \<times> 'd \<times> Revision list" where
  "executeFiles e [] d revs = (None, d, revs)"
| "executeFiles e (f # fs) d revs =
     (case executeFile e f d revs of
        (Some err, d', revs') \<Rightarrow> (Some err, d', revs')
      | (None, d', revs') \<Rightarrow> executeFiles e fs d' revs')"

definition ExecuteN :: "'d Executor \<Rightarrow> nat \<Rightarrow> 'd \<Rightarrow> Revision list \<Rightarrow> exec_error option \<times> 'd \<times> Revision list" where
  "ExecuteN e n d revs =
     (case Pending e d revs of
        (Inl err, revs') \<Rightarrow> (Some err, d, revs')
      | (Inr pending, revs') \<Rightarrow> executeFiles e (take n pending) d revs')"

text \<open>
  Values for the examples. The hash of the examples marks its argument; the scanner of the
  examples takes every line of a file that is not a directive or empty as one statement.
\<close>

definition exampleHash :: "string \<Rightarrow> string" where
  "exampleHash s = ''h('' @ s @ '')''"

definition lineStmts :: "string \<Rightarrow> Stmt list" where
  "lineStmts bytes =
     map (\<lambda>l. \<lparr> stText = l, stComments = [], stPos = 0 \<rparr>)
       (filter (\<lambda>l. l \<noteq> [] \<and> \<not> isPrefix ''-- atlas:'' l) (splitLines bytes))"

definition mockExecutor :: "File list \<Rightarrow> ExecOrder \<Rightarrow> mockDriver Executor" where
  "mockExecutor fs order =
     \<lparr> exDir = WriteSumFile exampleHash \<lparr> dFiles = fs, dSum = None \<rparr>,
       exHash = exampleHash, ScanStmts = lineStmts, execStmt = ExecContext,
       CheckClean = mock_CheckClean, exOperatorVersion = ''op'', BaselineVersion = [],
       AllowDirty = False, exOrder = order \<rparr>"



definition partlyFiles :: "File list" where
  "partlyFiles =
     [\<lparr> fName = ''1_init.sql'', fBytes = ''CREATE TABLE t(c int);'' \<rparr>,
      \<lparr> fName = ''2_partly.sql'',
        fBytes = ''ALTER TABLE t ADD c1 int;'' @ [CHR 0x0A] @ ''ALTER TABLE t ADD c2 int;'' @ [CHR 0x0A]
                 @ ''ALTER TABLE t ADD c3 int;'' \<rparr>]"











definition checkpointPlan :: Plan where
  "checkpointPlan =
     \<lparr> pName = ''checkpoint'',
       pChanges = [\<lparr> Cmd = ''CREATE TABLE t1(c int)'', Reverse = ''DROP TABLE t1 IF EXISTS'' \<rparr>,
                   \<lparr> Cmd = ''CREATE TABLE t2(c int)'', Reverse = ''DROP TABLE t2'' \<rparr>],
       Delimiter = [] \<rparr>"

definition checkpointFile :: File where
  "checkpointFile =
     last (dFiles (WriteCheckpoint exampleHash id \<lparr> dFiles = [], dSum = None \<rparr> ''2'' checkpointPlan ''v1''))"

definition laterFile :: File where
  "laterFile = \<lparr> fName = ''3_later.sql'', fBytes = ''CREATE TABLE t3(c int);'' \<rparr>"

definition checkpointFiles :: "File list" where
  "checkpointFiles = [partlyFiles ! 0, checkpointFile, laterFile]"

section \<open>Verified properties\<close>

subsection \<open>Primary-key diff\<close>

lemma indexChange_pkA_pkB: "indexChange exampleDiff pkA pkB = ChangeUnique"
  by (simp add: indexChange_def exampleDiff_def pkA_def pkB_def indexOf_def colPart_def
      colOf_def partsChange_def sortParts_def mysql_IndexAttrChanged_def
      mysql_IndexPartAttrChanged_def indexType_def CommentChange_def NoChange_def Let_def)

lemma indexChange_pkA_pkB_no_supporter:
  "indexChange (exampleDiff\<lparr>SupportChange := None\<rparr>) pkA pkB = ChangeUnique"
  by (simp add: indexChange_def exampleDiff_def pkA_def pkB_def indexOf_def colPart_def
      colOf_def partsChange_def sortParts_def mysql_IndexAttrChanged_def
      mysql_IndexPartAttrChanged_def indexType_def CommentChange_def NoChange_def Let_def)

lemma pkA_pkB_names: "iName pkA = ''pk_a''" "iName pkB = ''pk_b''"
  by (simp_all add: pkA_def pkB_def indexOf_def)

text \<open>
  C7. When both tables have a primary key, the change kind of the primary key is the index
  change with the Unique bit cleared. If a dimension is left, a ModifyPrimaryKey with that
  kind is handed to AddOrSkip; if none is left, the two constraint names are non-empty and
  differ, and the driver supports RenameConstraint (it has no ChangeSupporter, or its
  SupportChange accepts the variant), a RenameConstraint is handed to AddOrSkip instead, and
  it is the whole result unless the skip policy drops it.
\<close>

theorem pkDiff_masks_unique_and_renames:
  assumes "PrimaryKey from = Some pk1" and "PrimaryKey to = Some pk2"
  shows "(let change = indexChange d pk1 pk2 AND NOT ChangeUnique in
          change AND ChangeUnique = 0
          \<and> (change \<noteq> NoChange \<longrightarrow>
               pkDiff d from to opts = AddOrSkip opts [] [ModifyPrimaryKey pk1 pk2 change])
          \<and> (change = NoChange \<and> supportsRenameConstraint d
               \<and> iName pk1 \<noteq> [] \<and> iName pk2 \<noteq> [] \<and> iName pk1 \<noteq> iName pk2 \<longrightarrow>
               pkDiff d from to opts = AddOrSkip opts [] [RenameConstraint pk1 pk2]
               \<and> (\<not> Skip opts (RenameConstraint pk1 pk2) \<longrightarrow>
                    pkDiff d from to opts = [RenameConstraint pk1 pk2])))"
  using assms by (simp add: pkDiff_def Let_def AddOrSkip_def and.assoc)

theorem pkDiff_masks_unique_and_renames_witness:
  "PrimaryKey (tableOf ''t'' [colOf ''id''] (Some pkA) []) = Some pkA
   \<and> PrimaryKey (tableOf ''t'' [colOf ''id''] (Some pkB) []) = Some pkB
   \<and> indexChange (exampleDiff\<lparr>SupportChange := None\<rparr>) pkA pkB = ChangeUnique
   \<and> supportsRenameConstraint (exampleDiff\<lparr>SupportChange := None\<rparr>)
   \<and> pkDiff (exampleDiff\<lparr>SupportChange := None\<rparr>) (tableOf ''t'' [colOf ''id''] (Some pkA) [])
        (tableOf ''t'' [colOf ''id''] (Some pkB) []) noSkip = [RenameConstraint pkA pkB]"
proof -
  let ?d = "exampleDiff\<lparr>SupportChange := None\<rparr>"
  let ?from = "tableOf ''t'' [colOf ''id''] (Some pkA) []"
  let ?to = "tableOf ''t'' [colOf ''id''] (Some pkB) []"
  have p1: "PrimaryKey ?from = Some pkA" and p2: "PrimaryKey ?to = Some pkB"
    by (simp_all add: tableOf_def)
  have sup: "supportsRenameConstraint ?d"
    by (simp add: supportsRenameConstraint_def)
  have masked: "indexChange ?d pkA pkB AND NOT ChangeUnique = NoChange"
    by (simp add: indexChange_pkA_pkB_no_supporter NoChange_def)
  have skip: "\<not> Skip noSkip (RenameConstraint pkA pkB)"
    by (simp add: noSkip_def)
  from pkDiff_masks_unique_and_renames [OF p1 p2, of ?d noSkip] masked sup skip
  have "pkDiff ?d ?from ?to noSkip = [RenameConstraint pkA pkB]"
    by (simp add: Let_def pkA_pkB_names AddOrSkip_def noSkip_def)
  with p1 p2 sup show ?thesis
    by (simp add: indexChange_pkA_pkB_no_supporter)
qed

text \<open>
  C10. If both tables have a primary key, no dimension is left after the Unique bit is
  cleared, and the driver is a ChangeSupporter that rejects RenameConstraint (as the MySQL
  differ's SupportChange does), pkDiff returns no change at all, whatever the two constraint
  names are.
\<close>

theorem pkDiff_rename_vetoed_emits_nothing:
  assumes "PrimaryKey from = Some pk1" and "PrimaryKey to = Some pk2"
    and "indexChange d pk1 pk2 AND NOT ChangeUnique = NoChange"
    and "SupportChange d = Some f" and "\<not> f V_RenameConstraint"
  shows "pkDiff d from to opts = []"
  using assms by (simp add: pkDiff_def supportsRenameConstraint_def)

theorem pkDiff_rename_vetoed_emits_nothing_witness:
  "SupportChange exampleDiff = Some mysql_SupportChange
   \<and> \<not> mysql_SupportChange V_RenameConstraint
   \<and> iName pkA \<noteq> iName pkB
   \<and> pkDiff exampleDiff (tableOf ''t'' [colOf ''id''] (Some pkA) [])
        (tableOf ''t'' [colOf ''id''] (Some pkB) []) noSkip = []"
proof -
  let ?from = "tableOf ''t'' [colOf ''id''] (Some pkA) []"
  let ?to = "tableOf ''t'' [colOf ''id''] (Some pkB) []"
  have p1: "PrimaryKey ?from = Some pkA" and p2: "PrimaryKey ?to = Some pkB"
    by (simp_all add: tableOf_def)
  have masked: "indexChange exampleDiff pkA pkB AND NOT ChangeUnique = NoChange"
    by (simp add: indexChange_pkA_pkB NoChange_def)
  have sup: "SupportChange exampleDiff = Some mysql_SupportChange"
    by (simp add: exampleDiff_def)
  have veto: "\<not> mysql_SupportChange V_RenameConstraint"
    by (simp add: mysql_SupportChange_def)
  from pkDiff_rename_vetoed_emits_nothing [OF p1 p2 masked sup veto, of noSkip] sup veto
  show ?thesis
    by (simp add: pkA_pkB_names)
qed

subsection \<open>MayWrap on the inputs of its tests\<close>

lemma MayWrap_tests_wrapped:
  "MayWrap [] = ''()''"
  "MayWrap ''(a) in (b)'' = ''((a) in (b))''"
  "MayWrap ''a in (b)'' = ''(a in (b))''"
  "MayWrap ''a+1'' = ''(a+1)''"
  "MayWrap ''substr(x, 2)'' = ''(substr(x, 2))''"
  "MayWrap (''('' @ [CHR 0x27, CHR ''('', CHR 0x27] @ '')||('' @ [CHR 0x27, CHR '')'', CHR 0x27] @ '')'')
     = ''('' @ (''('' @ [CHR 0x27, CHR ''('', CHR 0x27] @ '')||('' @ [CHR 0x27, CHR '')'', CHR 0x27] @ '')'') @ '')''"
  by code_simp+

lemma MayWrap_tests_kept:
  "MayWrap ''()'' = ''()''"
  "MayWrap ''(a+1)'' = ''(a+1)''"
  "MayWrap ''(b+random())'' = ''(b+random())''"
  "MayWrap ''(substr(a, 2) COLLATE NOCASE)'' = ''(substr(a, 2) COLLATE NOCASE)''"
  "MayWrap (''('' @ [CHR 0x27, CHR ''('', CHR 0x27] @ '')'') = ''('' @ [CHR 0x27, CHR ''('', CHR 0x27] @ '')''"
  "MayWrap (''('' @ [CHR 0x27, CHR 0x5C, CHR 0x27, CHR '')'', CHR ''('', CHR 0x27] @ '')'')
     = ''('' @ [CHR 0x27, CHR 0x5C, CHR 0x27, CHR '')'', CHR ''('', CHR 0x27] @ '')''"
  by code_simp+

lemma ExprLastIndex_tests:
  "ExprLastIndex [] = -1"
  "ExprLastIndex ''()'' = 1"
  "ExprLastIndex ''floor(x), y'' = 7"
  "ExprLastIndex ''f(floor(x), y)'' = 13"
  "ExprLastIndex ''f(x, (x*2)), y, (z)'' = 10"
  by code_simp+

subsection \<open>Index parts\<close>

lemma ChangeParts_neq_NoChange: "ChangeParts \<noteq> NoChange"
  by (simp add: ChangeParts_def NoChange_def)

lemma partsLoop_NoChange_iff:
  assumes "length ps = length qs"
    and "\<forall>j < length ps. Desc (ps ! j) = Desc (qs ! j) \<and> \<not> attrCh (i + j)"
  shows "partsLoop attrCh renames i ps qs = NoChange
         \<longleftrightarrow> (\<forall>j < length ps. partsEqual renames (ps ! j) (qs ! j))"
  using assms
proof (induction ps qs arbitrary: i rule: list_induct2)
  case Nil
  then show ?case by simp
next
  case (Cons p ps q qs)
  have head: "Desc p = Desc q" "\<not> attrCh i"
    using Cons.prems by force+
  have tail: "\<forall>j < length ps. Desc (ps ! j) = Desc (qs ! j) \<and> \<not> attrCh (Suc i + j)"
    using Cons.prems by force
  have IH: "partsLoop attrCh renames (Suc i) ps qs = NoChange
            \<longleftrightarrow> (\<forall>j < length ps. partsEqual renames (ps ! j) (qs ! j))"
    by (rule Cons.IH [OF tail])
  have split: "(\<forall>j < length (p # ps). partsEqual renames ((p # ps) ! j) ((q # qs) ! j))
               \<longleftrightarrow> partsEqual renames p q \<and> (\<forall>j < length ps. partsEqual renames (ps ! j) (qs ! j))"
    by (auto simp: less_Suc_eq_0_disj)
  show ?case
    unfolding split using head IH
    by (auto simp: partsEqual_def ChangeParts_neq_NoChange)
qed

text \<open>
  C6 (as the code has it). For two indexes with the same number of parts whose parts, taken
  in SeqNo order, have equal Desc flags and unchanged part attributes at every position,
  partsChange returns NoChange iff the parts at every position are equal in the sense of
  \<open>partsEqual\<close>; and two expression parts are equal in that sense exactly when their raw
  strings are equal or the expression of the first (from) index is MayWrap of the expression of
  the second (to) index. Wrapping is applied to the second expression only.
\<close>

theorem partsChange_NoChange_iff:
  assumes "length (Parts fromI) = length (Parts toI)"
    and "\<forall>j < length (Parts fromI).
           Desc (sortParts (Parts fromI) ! j) = Desc (sortParts (Parts toI) ! j)
           \<and> \<not> IndexPartAttrChanged d (fromI\<lparr>Parts := sortParts (Parts fromI)\<rparr>)
                 (toI\<lparr>Parts := sortParts (Parts toI)\<rparr>) j"
  shows "(partsChange d fromI toI renames = NoChange
          \<longleftrightarrow> (\<forall>j < length (Parts fromI).
                 partsEqual renames (sortParts (Parts fromI) ! j) (sortParts (Parts toI) ! j)))
       \<and> (\<forall>p q x1 x2. C p = None \<and> C q = None \<and> X p = Some x1 \<and> X q = Some x2 \<longrightarrow>
             (partsEqual renames p q \<longleftrightarrow> x1 = x2 \<or> x1 = MayWrap x2))"
proof -
  have len: "length (sortParts (Parts fromI)) = length (sortParts (Parts toI))"
    using assms(1) by (simp add: sortParts_def)
  have lenf: "length (sortParts (Parts fromI)) = length (Parts fromI)"
    by (simp add: sortParts_def)
  have "partsLoop (IndexPartAttrChanged d (fromI\<lparr>Parts := sortParts (Parts fromI)\<rparr>)
                     (toI\<lparr>Parts := sortParts (Parts toI)\<rparr>)) renames 0
           (sortParts (Parts fromI)) (sortParts (Parts toI)) = NoChange
        \<longleftrightarrow> (\<forall>j < length (sortParts (Parts fromI)).
              partsEqual renames (sortParts (Parts fromI) ! j) (sortParts (Parts toI) ! j))"
    by (rule partsLoop_NoChange_iff [OF len]) (use assms(2) lenf in simp)
  then show ?thesis
    using assms(1) lenf by (simp add: partsChange_def Let_def partsEqual_def)
qed

lemma example_part_attrs_unchanged:
  "\<not> mysql_IndexPartAttrChanged (indexOf n [exprPart 1 x]) (indexOf m [exprPart 1 y]) 0"
  by (simp add: mysql_IndexPartAttrChanged_def indexOf_def exprPart_def)

theorem partsChange_NoChange_iff_witness:
  "partsChange exampleDiff (indexOf ''i'' [exprPart 1 ''(a+1)'']) (indexOf ''i'' [exprPart 1 ''a+1''])
     Map.empty = NoChange
   \<and> partsEqual Map.empty (exprPart 1 ''(a+1)'') (exprPart 1 ''a+1'')"
proof -
  let ?f = "indexOf ''i'' [exprPart 1 ''(a+1)'']"
  let ?t = "indexOf ''i'' [exprPart 1 ''a+1'']"
  have len: "length (Parts ?f) = length (Parts ?t)"
    by (simp add: indexOf_def)
  have same: "\<forall>j < length (Parts ?f).
           Desc (sortParts (Parts ?f) ! j) = Desc (sortParts (Parts ?t) ! j)
           \<and> \<not> IndexPartAttrChanged exampleDiff (?f\<lparr>Parts := sortParts (Parts ?f)\<rparr>)
                 (?t\<lparr>Parts := sortParts (Parts ?t)\<rparr>) j"
    by (simp add: indexOf_def exprPart_def sortParts_def exampleDiff_def
        mysql_IndexPartAttrChanged_def)
  have eq: "partsEqual Map.empty (exprPart 1 ''(a+1)'') (exprPart 1 ''a+1'')"
    using partsChange_NoChange_iff [OF len same, of Map.empty]
    by (simp add: exprPart_def MayWrap_tests_wrapped)
  then have "partsChange exampleDiff ?f ?t Map.empty = NoChange"
    using partsChange_NoChange_iff [OF len same, of Map.empty]
    by (simp add: indexOf_def sortParts_def)
  with eq show ?thesis by simp
qed

text \<open>
  The claim as stated fails when only the second expression is the wrapped one: \<open>(a+1)\<close> is
  MayWrap of \<open>a+1\<close>, the two indexes have one part each with equal Desc flags and unchanged
  attributes, and partsChange reports ChangeParts.
\<close>

theorem partsChange_wrap_not_symmetric:
  "MayWrap ''a+1'' = ''(a+1)''
   \<and> Desc (exprPart 1 ''a+1'') = Desc (exprPart 1 ''(a+1)'')
   \<and> \<not> IndexPartAttrChanged exampleDiff (indexOf ''i'' [exprPart 1 ''a+1''])
         (indexOf ''i'' [exprPart 1 ''(a+1)'']) 0
   \<and> partsChange exampleDiff (indexOf ''i'' [exprPart 1 ''a+1''])
       (indexOf ''i'' [exprPart 1 ''(a+1)'']) Map.empty = ChangeParts
   \<and> ChangeParts \<noteq> NoChange"
  by (simp add: MayWrap_tests_wrapped MayWrap_tests_kept ChangeParts_neq_NoChange
      partsChange_def indexOf_def exprPart_def sortParts_def exampleDiff_def
      mysql_IndexPartAttrChanged_def)

subsection \<open>Diffing a schema against itself\<close>

lemma find_distinct_key:
  assumes "distinct (map f xs)" and "x \<in> set xs"
  shows "find (\<lambda>y. f y = f x) xs = Some x"
  using assms by (induction xs) (auto simp: image_iff)

lemma find_distinct_pair:
  assumes "distinct (map (\<lambda>v. (f v, g v)) xs)" and "x \<in> set xs"
  shows "find (\<lambda>y. f y = f x \<and> g y = g x) xs = Some x"
  using assms by (induction xs) (auto simp: image_iff)

lemma findPos_None_iff: "findPos P xs = None \<longleftrightarrow> (\<forall>x \<in> set xs. \<not> P x)"
  by (induction xs) auto

lemma findPos_distinct_key:
  assumes "distinct (map f xs)" and "x \<in> set xs"
  shows "\<exists>p. findPos (\<lambda>y. f y = f x) xs = Some p \<and> p < length xs \<and> xs ! p = x"
  using assms by (induction xs) (auto simp: image_iff)

lemma reflexiveDiffD:
  assumes "reflexiveDiff d"
  shows "SchemaAttrDiff d s s = []"
    and "SchemaObjectDiff d s s opts = Inr []"
    and "TableAttrDiff d t t opts = Inr []"
    and "ViewAttrChanges d v v = []"
    and "ColumnChange d t c c opts = Inr None"
    and "\<not> IndexAttrChanged d a a"
    and "k < length (Parts i) \<Longrightarrow> \<not> IndexPartAttrChanged d i i k"
    and "\<not> ReferenceChanged d r r"
    and "\<not> ForeignKeyAttrChanged d a a"
    and "Normalize d = Some n \<Longrightarrow> n t t opts = Inr (t, t)"
    and "FindTable d = Some f \<Longrightarrow> t \<in> set (Tables s) \<Longrightarrow> f s t = Inr t"
    and "AnnotateChanges d = Some an \<Longrightarrow> an [] opts = Inr []"
    and "ProcFuncsDiff d = Some pf \<Longrightarrow> pf s s opts = Inr []"
    and "ViewDefChanged d = Some g \<Longrightarrow> \<not> g v v"
    and "triggerDiff d ow ow ts ts opts = Inr []"
    and "fixRenames d [] = []"
    and "askForColumns d t [] opts = Inr []"
    and "askForIndexes d nm [] opts = Inr []"
  using assms by (simp_all add: reflexiveDiff_def)

lemma CommentChange_refl: "CommentChange a a = NoChange"
  by (cases "hasComment a") (simp_all add: CommentChange_def)

lemma partsEqual_refl: "C p \<noteq> None \<or> X p \<noteq> None \<Longrightarrow> partsEqual renames p p"
  by (auto simp: partsEqual_def)

lemma partsChange_refl:
  assumes "reflexiveDiff d" and "wfIndex i"
  shows "partsChange d i i renames = NoChange"
proof -
  let ?ps = "sortParts (Parts i)"
  let ?i = "i\<lparr>Parts := ?ps\<rparr>"
  have len: "length ?ps = length (Parts i)"
    by (simp add: sortParts_def)
  have attr: "\<forall>j < length ?ps. Desc (?ps ! j) = Desc (?ps ! j) \<and> \<not> IndexPartAttrChanged d ?i ?i (0 + j)"
    using reflexiveDiffD(7) [OF assms(1), of _ ?i] by simp
  have "set ?ps = set (Parts i)"
    by (simp add: sortParts_def)
  then have "\<forall>p \<in> set ?ps. partsEqual renames p p"
    using assms(2) partsEqual_refl unfolding wfIndex_def by blast
  then have "\<forall>j < length ?ps. partsEqual renames (?ps ! j) (?ps ! j)"
    using nth_mem by blast
  then have "partsLoop (IndexPartAttrChanged d ?i ?i) renames 0 ?ps ?ps = NoChange"
    using partsLoop_NoChange_iff [OF refl attr] by simp
  then show ?thesis
    by (simp add: partsChange_def Let_def)
qed

lemma indexChange_refl:
  assumes "reflexiveDiff d" and "wfIndex i"
  shows "indexChange d i i = NoChange"
  using partsChange_refl [OF assms] reflexiveDiffD(6) [OF assms(1)]
  by (simp add: indexChange_def CommentChange_refl NoChange_def)

lemma pkDiff_refl:
  assumes "reflexiveDiff d" and "wfTable t"
  shows "pkDiff d t t opts = []"
proof (cases "PrimaryKey t")
  case None
  then show ?thesis by (simp add: pkDiff_def)
next
  case (Some pk)
  then have "wfIndex pk" using assms(2) by (simp add: wfTable_def)
  then have "indexChange d pk pk = NoChange" by (rule indexChange_refl [OF assms(1)])
  then show ?thesis using Some by (simp add: pkDiff_def NoChange_def)
qed

lemma addAll_Nil: "addAll opts [] = []"
  by (simp add: addAll_def)

lemma columnDropModify_refl:
  assumes "\<forall>c \<in> set cs. lookupColumn to (cName c) = Some c"
    and "\<And>c. ColumnChange d from c c opts = Inr None"
  shows "columnDropModify d from to opts cs all = Inr all"
  using assms(1) by (induction cs arbitrary: all) (simp_all add: assms(2))

lemma columnDiff_refl:
  assumes "reflexiveDiff d" and "wfTable t"
  shows "columnDiff d t t opts = Inr []"
proof -
  have look: "\<forall>c \<in> set (Columns t). lookupColumn t (cName c) = Some c"
    using assms(2) by (auto simp: wfTable_def lookupColumn_def intro: find_distinct_key)
  have drop: "columnDropModify d t t opts (Columns t) [] = Inr []"
    by (rule columnDropModify_refl [OF look]) (rule reflexiveDiffD(5) [OF assms(1)])
  have add: "columnAdd t t = []"
    using look by (auto simp: columnAdd_def filter_empty_conv)
  show ?thesis
    by (simp add: columnDiff_def drop add reflexiveDiffD(17) [OF assms(1)] addAll_Nil)
qed

lemma indexDropModify_refl:
  assumes "\<forall>i \<in> set idxs. \<exists>p. lookupIndexPos (Indexes to) (iName i) = Some p \<and> Indexes to ! p = i"
    and "\<forall>i \<in> set idxs. indexChange d i i = NoChange"
  shows "fst (indexDropModify d from to idxs all ex) = all"
  using assms by (induction idxs arbitrary: all ex) (auto simp: Let_def)

lemma indexAdd_refl: "indexAdd xs xs ex = []"
proof -
  have "\<forall>x \<in> set (zip [0 ..< length xs] xs). lookupIndexPos xs (iName (snd x)) \<noteq> None"
  proof
    fix x assume "x \<in> set (zip [0 ..< length xs] xs)"
    then have "snd x \<in> set xs"
      by (metis set_zip_rightD prod.collapse)
    then show "lookupIndexPos xs (iName (snd x)) \<noteq> None"
      by (auto simp: lookupIndexPos_def findPos_None_iff simp del: not_None_eq)
  qed
  then show ?thesis
    unfolding indexAdd_def by (force simp: filter_empty_conv simp del: not_None_eq)
qed

lemma indexDiffT_refl:
  assumes "reflexiveDiff d" and "wfTable t"
  shows "indexDiffT d t t opts = Inr []"
proof -
  have look: "\<forall>i \<in> set (Indexes t). \<exists>p. lookupIndexPos (Indexes t) (iName i) = Some p \<and> Indexes t ! p = i"
    using assms(2) findPos_distinct_key [of iName "Indexes t"]
    by (fastforce simp: wfTable_def lookupIndexPos_def)
  have same: "\<forall>i \<in> set (Indexes t). indexChange d i i = NoChange"
    using assms by (auto simp: wfTable_def intro: indexChange_refl)
  have "fst (indexDropModify d t t (Indexes t) [] []) = []"
    by (rule indexDropModify_refl [OF look same])
  then obtain ex where "indexDropModify d t t (Indexes t) [] [] = ([], ex)"
    by (cases "indexDropModify d t t (Indexes t) [] []") simp
  then show ?thesis
    by (simp add: indexDiffT_def indexAdd_refl reflexiveDiffD(18) [OF assms(1)] addAll_Nil)
qed

lemma fkChange_refl:
  assumes "reflexiveDiff d"
  shows "fkChange d f f = NoChange"
  by (simp add: fkChange_def reflexiveDiffD(8,9) [OF assms])

lemma fkDropModify_refl:
  assumes "\<forall>f \<in> set fks. lookupForeignKey to (Symbol f) = Some f"
    and "\<And>f. fkChange d f f = NoChange"
  shows "fkDropModify d to opts fks changes = changes"
  using assms(1) by (induction fks arbitrary: changes) (simp_all add: assms(2))

lemma fkAdd_refl:
  assumes "\<forall>f \<in> set (ForeignKeys to). lookupForeignKey from (Symbol f) \<noteq> None"
  shows "fkAdd from to opts changes = changes"
proof -
  have "\<And>fks. \<forall>f \<in> set fks. lookupForeignKey from (Symbol f) \<noteq> None \<Longrightarrow>
          foldl (\<lambda>changes fk1. if lookupForeignKey from (Symbol fk1) = None
                   then AddOrSkip opts changes [AddForeignKey fk1] else changes) changes fks = changes"
    subgoal for fks by (induction fks arbitrary: changes) (simp_all del: not_None_eq)
    done
  then show ?thesis using assms by (simp add: fkAdd_def)
qed

lemma tableDiff_refl:
  assumes "reflexiveDiff d" and "wfTable t"
  shows "tableDiff d t t opts = Inr []"
proof -
  have norm: "(case Normalize d of None \<Rightarrow> Inr (t, t) | Some n \<Rightarrow> n t t opts) = Inr (t, t)"
    using reflexiveDiffD(10) [OF assms(1)] by (simp split: option.splits)
  have look: "\<forall>f \<in> set (ForeignKeys t). lookupForeignKey t (Symbol f) = Some f"
    using assms(2) by (auto simp: wfTable_def lookupForeignKey_def intro: find_distinct_key)
  have fks: "fkDropModify d t opts (ForeignKeys t) [] = []"
    by (rule fkDropModify_refl [OF look]) (rule fkChange_refl [OF assms(1)])
  have add: "fkAdd t t opts [] = []"
    by (rule fkAdd_refl) (use look in simp)
  show ?thesis
    by (simp add: tableDiff_def norm reflexiveDiffD(3) [OF assms(1)] columnDiff_refl [OF assms]
        indexDiffT_refl [OF assms] pkDiff_refl [OF assms] fks add)
qed
lemma BodyDefChanged_refl: "\<not> BodyDefChanged x x"
  by (simp add: BodyDefChanged_def)

lemma viewDefChanged_refl:
  assumes "reflexiveDiff d"
  shows "\<not> viewDefChanged d v v"
proof (cases "ViewDefChanged d")
  case None
  then show ?thesis by (simp add: viewDefChanged_def BodyDefChanged_refl)
next
  case (Some g)
  then show ?thesis using reflexiveDiffD(14) [OF assms Some] by (simp add: viewDefChanged_def)
qed

lemma columnDiffV_loop_refl:
  assumes "\<forall>c \<in> set cs. lookupViewColumn to (cName c) = Some c"
  shows "columnDiffV_loop to opts cs changes = changes"
  using assms by (induction cs arbitrary: changes) (simp_all add: CommentChange_refl)

lemma indexDropModifyV_refl:
  assumes "\<forall>i \<in> set idxs. \<exists>p. lookupIndexPos (vIndexes to) (iName i) = Some p \<and> vIndexes to ! p = i"
    and "\<forall>i \<in> set idxs. indexChange d i i = NoChange"
  shows "fst (indexDropModifyV d to opts idxs changes ex) = changes"
  using assms by (induction idxs arbitrary: changes ex) (auto simp: Let_def)

lemma indexDiffV_refl:
  assumes "reflexiveDiff d" and "wfView v"
  shows "indexDiffV d v v opts = Inr []"
proof -
  have look: "\<forall>i \<in> set (vIndexes v). \<exists>p. lookupIndexPos (vIndexes v) (iName i) = Some p \<and> vIndexes v ! p = i"
    using assms(2) findPos_distinct_key [of iName "vIndexes v"]
    by (fastforce simp: wfView_def lookupIndexPos_def)
  have same: "\<forall>i \<in> set (vIndexes v). indexChange d i i = NoChange"
    using assms by (auto simp: wfView_def intro: indexChange_refl)
  have "fst (indexDropModifyV d v opts (vIndexes v) [] []) = []"
    by (rule indexDropModifyV_refl [OF look same])
  then obtain ex where "indexDropModifyV d v opts (vIndexes v) [] [] = ([], ex)"
    by (cases "indexDropModifyV d v opts (vIndexes v) [] []") simp
  then show ?thesis
    by (simp add: indexDiffV_def indexAdd_refl AddOrSkip_def reflexiveDiffD(18) [OF assms(1)])
qed

lemma viewDiff_refl:
  assumes "reflexiveDiff d" and "wfView v"
  shows "viewDiff d v v opts = Inr []"
proof -
  have look: "\<forall>c \<in> set (vColumns v). lookupViewColumn v (cName c) = Some c"
    using assms(2) by (auto simp: wfView_def lookupViewColumn_def intro: find_distinct_key)
  have cols: "columnDiffV v v opts = []"
    by (simp add: columnDiffV_def columnDiffV_loop_refl [OF look])
  show ?thesis
    by (simp add: viewDiff_def indexDiffV_refl [OF assms] cols reflexiveDiffD(4) [OF assms(1)]
        viewDefChanged_refl [OF assms(1)])
qed

lemma findView_refl:
  assumes "distinct (map (\<lambda>v. (vName v, Materialized v)) (Views s))" and "v \<in> set (Views s)"
  shows "findView s v = Some v"
proof -
  have "find (\<lambda>y. vName y = vName v \<and> Materialized y = Materialized v) (Views s) = Some v"
    by (rule find_distinct_pair [OF assms])
  then show ?thesis
    by (cases "Materialized v") (simp_all add: findView_def lookupMaterialized_def lookupView_def)
qed

lemma viewsDropModify_refl:
  assumes "reflexiveDiff d"
    and "\<forall>v \<in> set vs. findView to v = Some v \<and> wfView v"
  shows "viewsDropModify d to opts vs changes = Inr changes"
  using assms(2)
  by (induction vs arbitrary: changes)
     (simp_all add: viewDiff_refl [OF assms(1)] reflexiveDiffD(15) [OF assms(1)])

lemma viewsAdd_refl:
  assumes "\<forall>v \<in> set (Views to). findView from v \<noteq> None"
  shows "viewsAdd from to opts changes = changes"
proof -
  have "\<And>vs. \<forall>v \<in> set vs. findView from v \<noteq> None \<Longrightarrow>
          foldl (\<lambda>changes v1. if findView from v1 = None
                   then AddOrSkip opts changes (addViewChange v1) else changes) changes vs = changes"
    subgoal for vs by (induction vs arbitrary: changes) (simp_all del: not_None_eq)
    done
  then show ?thesis using assms by (simp add: viewsAdd_def)
qed

lemma findTable_refl:
  assumes "reflexiveDiff d" and "distinct (map tName (Tables s))" and "t \<in> set (Tables s)"
  shows "findTable d s t = Inr t"
proof (cases "FindTable d")
  case None
  have "find (\<lambda>y. tName y = tName t) (Tables s) = Some t"
    by (rule find_distinct_key [OF assms(2,3)])
  then show ?thesis using None by (simp add: findTable_def lookupTable_def)
next
  case (Some f)
  then show ?thesis
    using reflexiveDiffD(11) [OF assms(1) Some assms(3)] by (simp add: findTable_def)
qed

lemma tablesDropModify_refl:
  assumes "reflexiveDiff d"
    and "\<forall>t \<in> set ts. findTable d to t = Inr t \<and> wfTable t"
  shows "tablesDropModify d to opts ts changes = Inr changes"
  using assms(2)
  by (induction ts arbitrary: changes)
     (simp_all add: tableDiff_refl [OF assms(1)] reflexiveDiffD(15) [OF assms(1)])

lemma tablesAdd_refl:
  assumes "\<forall>t \<in> set ts. findTable d from t = Inr t"
  shows "tablesAdd d from opts ts changes = Inr changes"
  using assms by (induction ts arbitrary: changes) simp_all

lemma schemaDiff_refl:
  assumes "reflexiveDiff d" and "wfSchema s"
  shows "schemaDiff d s s opts = Inr []"
proof -
  have tabs: "\<forall>t \<in> set (Tables s). findTable d s t = Inr t \<and> wfTable t"
    using assms by (auto simp: wfSchema_def intro: findTable_refl)
  have views: "\<forall>v \<in> set (Views s). findView s v = Some v \<and> wfView v"
    using assms(2) by (auto simp: wfSchema_def intro: findView_refl)
  have t1: "tablesDropModify d s opts (Tables s) [] = Inr []"
    by (rule tablesDropModify_refl [OF assms(1) tabs])
  have t2: "tablesAdd d s opts (Tables s) [] = Inr []"
    by (rule tablesAdd_refl) (use tabs in simp)
  have v1: "viewsDropModify d s opts (Views s) [] = Inr []"
    by (rule viewsDropModify_refl [OF assms(1) views])
  have v2: "viewsAdd s s opts [] = []"
    by (rule viewsAdd_refl) (use views in simp)
  have pf: "(case ProcFuncsDiff d of None \<Rightarrow> Inr [] | Some pf \<Rightarrow>
               (case pf s s opts of Inl e \<Rightarrow> Inl e | Inr change \<Rightarrow> Inr ([] @ change))) = Inr []"
  proof (cases "ProcFuncsDiff d")
    case None
    then show ?thesis by simp
  next
    case (Some pf)
    then show ?thesis using reflexiveDiffD(13) [OF assms(1) Some] by simp
  qed
  show ?thesis
    by (simp add: schemaDiff_def Let_def reflexiveDiffD(1,2,16) [OF assms(1)] AddOrSkip_def
        t1 t2 v1 v2 pf)
qed

lemma mysql_IndexAttrChanged_refl: "\<not> mysql_IndexAttrChanged a a"
  by (cases "hasIndexParser a") (simp_all add: mysql_IndexAttrChanged_def)

lemma exampleDiff_reflexive: "reflexiveDiff exampleDiff"
  by (auto simp: reflexiveDiff_def exampleDiff_def mysql_IndexAttrChanged_refl
      mysql_IndexPartAttrChanged_def mysql_ReferenceChanged_def mysql_ForeignKeyAttrChanged_def
      Let_def)

text \<open>
  C1 (as the code has it). For every schema in which names identify the elements (distinct
  table names, distinct view names per kind, and in each table or view distinct column names,
  index names and foreign-key symbols) and every index part carries a column or an
  expression, diffing the schema against itself returns the empty change list, for every
  differ whose driver predicates and helper passes report no change on identical inputs.
\<close>

theorem SchemaDiff_self_empty:
  assumes "reflexiveDiff d" and "wfSchema s"
  shows "SchemaDiff d s s opts = Inr []"
proof (cases "AnnotateChanges d")
  case None
  then show ?thesis
    by (simp add: SchemaDiff_def schemaDiff_refl [OF assms] mayAnnotate_def)
next
  case (Some an)
  then show ?thesis
    using reflexiveDiffD(12) [OF assms(1) Some]
    by (simp add: SchemaDiff_def schemaDiff_refl [OF assms] mayAnnotate_def)
qed

theorem SchemaDiff_self_empty_witness:
  "reflexiveDiff exampleDiff
   \<and> wfSchema (schemaOf ''s'' [twoNamed])
   \<and> SchemaDiff exampleDiff (schemaOf ''s'' [twoNamed]) (schemaOf ''s'' [twoNamed]) noSkip = Inr []"
proof -
  have wf: "wfSchema (schemaOf ''s'' [twoNamed])"
    by (simp add: wfSchema_def schemaOf_def twoNamed_def tableOf_def wfTable_def wfIndex_def
        indexOf_def colOf_def colPart_def pkA_def)
  from SchemaDiff_self_empty [OF exampleDiff_reflexive wf, of noSkip] exampleDiff_reflexive wf
  show ?thesis by simp
qed

text \<open>
  The claim as stated fails for a table with two unnamed indexes, which the schema model
  allows (an index name may be empty): the lookup by name of the second unnamed index finds
  the first one, and the differ reports that its parts changed.
\<close>

theorem SchemaDiff_self_two_unnamed_indexes:
  "reflexiveDiff exampleDiff
   \<and> SchemaDiff exampleDiff (schemaOf ''s'' [twoUnnamed]) (schemaOf ''s'' [twoUnnamed]) noSkip
       = Inr [ModifyTable twoUnnamed
                [ModifyIndex (indexOf [] [colPart 1 ''b'']) (indexOf [] [colPart 1 ''a'']) ChangeParts]]"
proof -
  have "SchemaDiff exampleDiff (schemaOf ''s'' [twoUnnamed]) (schemaOf ''s'' [twoUnnamed]) noSkip
       = Inr [ModifyTable twoUnnamed
                [ModifyIndex (indexOf [] [colPart 1 ''b'']) (indexOf [] [colPart 1 ''a'']) ChangeParts]]"
    by code_simp
  with exampleDiff_reflexive show ?thesis by simp
qed

subsection \<open>The SQLite lock\<close>












subsection \<open>Hooks and nested calls\<close>






subsection \<open>Revision store and directory\<close>


lemma ReadRevision_Some: "ReadRevision revs v = Some r \<Longrightarrow> rVersion r = v \<and> r \<in> set revs"
  by (induction revs) (auto split: if_splits)

lemma ReadRevision_None_iff: "ReadRevision revs v = None \<longleftrightarrow> v \<notin> set (map rVersion revs)"
  by (induction revs) auto

lemma versions_WriteRevision:
  "rVersion ` set (WriteRevision revs r) = insert (rVersion r) (rVersion ` set revs)"
  by (induction revs) auto









lemma Files_strictly_sorted:
  assumes "distinct (map Version (dFiles d))"
  shows "sorted_wrt (\<lambda>a b. Version a < Version b) (Files d)"
proof -
  have "sorted (map Version (Files d))"
    by (simp add: Files_def)
  moreover have "distinct (map Version (Files d))"
    using assms by (simp add: Files_def distinct_map)
  ultimately have "sorted_wrt (<) (map Version (Files d))"
    by (simp add: strict_sorted_iff)
  then show ?thesis by (simp add: sorted_wrt_map)
qed












subsection \<open>Executing one file\<close>










subsection \<open>Execution order\<close>






subsection \<open>Checkpoints\<close>

lemma splitLines_line:
  "CHR 0x0A \<notin> set l \<Longrightarrow> splitLines (l @ CHR 0x0A # r) = l # splitLines r"
  by (induction l) auto

lemma checkpointBytes_first_line:
  assumes "CHR 0x0A \<notin> set tag"
  shows "\<exists>ls. splitLines (checkpointBytes escape p tag) = (''-- atlas:checkpoint '' @ tag) # ls"
proof -
  have "CHR 0x0A \<notin> set (''-- atlas:checkpoint '' @ tag)"
    using assms by simp
  from splitLines_line [OF this]
  show ?thesis
    by (simp add: checkpointBytes_def)
qed

lemma checkpointBytes_header:
  assumes "CHR 0x0A \<notin> set tag"
  shows "\<exists>ls. header (checkpointBytes escape p tag) = (''-- atlas:checkpoint '' @ tag) # ls"
proof -
  obtain ls where "splitLines (checkpointBytes escape p tag) = (''-- atlas:checkpoint '' @ tag) # ls"
    using checkpointBytes_first_line [OF assms] by blast
  then show ?thesis
    by (simp add: header_def isPrefix_def)
qed

lemma fromLastCheckpoint_split:
  "IsCheckpoint c \<Longrightarrow> \<not> list_ex IsCheckpoint post \<Longrightarrow> fromLastCheckpoint (pre @ c # post) = c # post"
  by (induction pre) (auto simp: list_ex_iff)

lemma WriteRevision_footprint:
  "revs' = WriteRevision revs r \<Longrightarrow> rVersion r = v
   \<Longrightarrow> rVersion ` set revs' \<subseteq> insert v (rVersion ` set revs)"
  by (simp add: versions_WriteRevision)

lemma executeFile_footprint:
  assumes "executeFile e f d revs = (err, d', revs')"
  shows "rVersion ` set revs' \<subseteq> insert (Version f) (rVersion ` set revs)"
proof -
  let ?stmts = "ScanStmts e (fBytes f)"
  show ?thesis
  proof (cases "startRevision e f ?stmts revs")
    case (Inl x)
    then show ?thesis using assms by (auto simp: executeFile_def Let_def)
  next
    case (Inr r)
    then have v: "rVersion r = Version f"
      by (auto simp: startRevision_def initialRevision_def Let_def
          dest: ReadRevision_Some split: option.splits if_splits)
    obtain i res d1 where run: "runStmts (execStmt e) d (drop (Applied r) ?stmts) (Applied r) = (i, res, d1)"
      by (cases "runStmts (execStmt e) d (drop (Applied r) ?stmts) (Applied r)")
    show ?thesis
    proof (cases res)
      case None
      let ?r' = "r\<lparr> Applied := Total r, Error := [], ErrorStmt := [], PartialHashes := [],
                     rType := (if (rType r div 2) mod 2 = 1 then rType r else rType r + RevisionTypeExecute),
                     OperatorVersion := exOperatorVersion e \<rparr>"
      have "revs' = WriteRevision revs ?r'"
        using assms Inr run None by (simp add: executeFile_def Let_def)
      moreover have "rVersion ?r' = Version f" using v by simp
      ultimately show ?thesis by (rule WriteRevision_footprint)
    next
      case (Some sm)
      obtain s msg where sm: "sm = (s, msg)" by (cases sm)
      let ?r' = "r\<lparr> Applied := i, Error := msg, ErrorStmt := stText s \<rparr>"
      have "revs' = WriteRevision revs ?r'"
        using assms Inr run Some sm by (simp add: executeFile_def Let_def)
      moreover have "rVersion ?r' = Version f" using v by simp
      ultimately show ?thesis by (rule WriteRevision_footprint)
    qed
  qed
qed

lemma executeFiles_footprint:
  "executeFiles e fs d revs = (err, d', revs')
   \<Longrightarrow> rVersion ` set revs' \<subseteq> Version ` set fs \<union> rVersion ` set revs"
proof (induction fs arbitrary: d revs)
  case Nil
  then show ?case by simp
next
  case (Cons f fs)
  obtain err1 d1 revs1 where one: "executeFile e f d revs = (err1, d1, revs1)"
    by (cases "executeFile e f d revs")
  note fp = executeFile_footprint [OF one]
  show ?case
  proof (cases err1)
    case None
    with Cons.prems one have "executeFiles e fs d1 revs1 = (err, d', revs')" by simp
    from Cons.IH [OF this] fp show ?thesis by auto
  next
    case (Some x)
    with Cons.prems one have "revs' = revs1" by simp
    with fp show ?thesis by auto
  qed
qed

text \<open>
  C5. The file written by WriteCheckpoint has \<^verbatim>\<open>-- atlas:checkpoint <tag>\<close> as the first line of its
  header and is a checkpoint file. On a first run (no revisions, no baseline, database clean
  or AllowDirty) over a valid directory whose last checkpoint file is c, the pending files
  are c and the files after it; no file before c is pending, ExecuteN executes the pending
  files only, and afterwards there is no revision for any file before c.
\<close>

theorem checkpoint_supersedes_earlier_files:
  assumes valid: "Validate (exHash e) (exDir e)"
    and dist: "distinct (map Version (dFiles (exDir e)))"
    and clean: "CheckClean e d = None \<or> AllowDirty e"
    and nobase: "BaselineVersion e = []"
    and files: "Files (exDir e) = pre @ c # post"
    and cp: "IsCheckpoint c" and lastcp: "\<not> list_ex IsCheckpoint post"
    and run: "ExecuteN e n d [] = (err, d', revs')"
    and tag: "CHR 0x0A \<notin> set tag"
  shows "hd (header (checkpointBytes escape p tag)) = ''-- atlas:checkpoint '' @ tag
       \<and> IsCheckpoint (last (dFiles (WriteCheckpoint H escape dir version p tag)))
       \<and> Pending e d [] = (Inr (c # post), [])
       \<and> ExecuteN e n d [] = executeFiles e (take n (c # post)) d []
       \<and> (\<forall>f \<in> set pre. f \<notin> set (c # post) \<and> ReadRevision revs' (Version f) = None)"
proof -
  obtain ls where hdr: "header (checkpointBytes escape p tag) = (''-- atlas:checkpoint '' @ tag) # ls"
    using checkpointBytes_header [OF tag] by blast
  then have a: "hd (header (checkpointBytes escape p tag)) = ''-- atlas:checkpoint '' @ tag"
    by simp
  have b: "IsCheckpoint (last (dFiles (WriteCheckpoint H escape dir version p tag)))"
    by (simp add: WriteCheckpoint_def WriteSumFile_def IsCheckpoint_def hdr isPrefix_def)
  have first: "firstRunPending e (Files (exDir e)) = (Inr (c # post), [])"
    by (simp add: firstRunPending_def nobase files fromLastCheckpoint_split [OF cp lastcp] nonEmpty_def)
  have c: "Pending e d [] = (Inr (c # post), [])"
    using valid clean first files by (auto simp: Pending_def Let_def split: option.splits)
  then have d: "ExecuteN e n d [] = executeFiles e (take n (c # post)) d []"
    by (simp add: ExecuteN_def)
  have sorted: "sorted_wrt (\<lambda>a b. Version a < Version b) (pre @ c # post)"
    using Files_strictly_sorted [OF dist] files by simp
  have e: "f \<notin> set (c # post) \<and> ReadRevision revs' (Version f) = None" if f: "f \<in> set pre" for f
  proof -
    have lt: "\<forall>g \<in> set (c # post). Version f < Version g"
      using sorted f by (auto simp: sorted_wrt_append)
    then have notin: "f \<notin> set (c # post)" by auto
    have "executeFiles e (take n (c # post)) d [] = (err, d', revs')"
      using run d by simp
    from executeFiles_footprint [OF this]
    have "rVersion ` set revs' \<subseteq> Version ` set (take n (c # post))"
      by simp
    moreover have "Version f \<notin> Version ` set (take n (c # post))"
      using lt by (auto dest!: in_set_takeD)
    ultimately have "Version f \<notin> set (map rVersion revs')" by auto
    then show ?thesis
      using notin by (simp add: ReadRevision_None_iff)
  qed
  from a b c d e show ?thesis by blast
qed

theorem checkpoint_supersedes_earlier_files_witness:
  "fBytes checkpointFile = ''-- atlas:checkpoint v1'' @ [CHR 0x0A, CHR 0x0A]
       @ ''CREATE TABLE t1(c int);'' @ [CHR 0x0A] @ ''CREATE TABLE t2(c int);'' @ [CHR 0x0A]
   \<and> hd (header (fBytes checkpointFile)) = ''-- atlas:checkpoint v1''
   \<and> Pending (mockExecutor checkpointFiles ExecOrderLinear) newMockDriver []
       = (Inr [checkpointFile, laterFile], [])
   \<and> ReadRevision (snd (snd (ExecuteN (mockExecutor checkpointFiles ExecOrderLinear) 2 newMockDriver [])))
       (Version (partlyFiles ! 0)) = None"
proof -
  let ?e = "mockExecutor checkpointFiles ExecOrderLinear"
  have valid: "Validate (exHash ?e) (exDir ?e)"
    by (simp add: mockExecutor_def Validate_def WriteSumFile_def Files_def)
  have dist: "distinct (map Version (dFiles (exDir ?e)))"
    by code_simp
  have clean: "CheckClean ?e newMockDriver = None \<or> AllowDirty ?e"
    by code_simp
  have nobase: "BaselineVersion ?e = []"
    by (simp add: mockExecutor_def)
  have files: "Files (exDir ?e) = [partlyFiles ! 0] @ checkpointFile # [laterFile]"
    by code_simp
  have cp: "IsCheckpoint checkpointFile"
    by code_simp
  have lastcp: "\<not> list_ex IsCheckpoint [laterFile]"
    by code_simp
  have run: "ExecuteN ?e 2 newMockDriver []
               = (fst (ExecuteN ?e 2 newMockDriver []), fst (snd (ExecuteN ?e 2 newMockDriver [])),
                  snd (snd (ExecuteN ?e 2 newMockDriver [])))"
    by simp
  have tag: "CHR 0x0A \<notin> set ''v1''"
    by simp
  have bytes: "fBytes checkpointFile = ''-- atlas:checkpoint v1'' @ [CHR 0x0A, CHR 0x0A]
       @ ''CREATE TABLE t1(c int);'' @ [CHR 0x0A] @ ''CREATE TABLE t2(c int);'' @ [CHR 0x0A]"
    by code_simp
  have same: "checkpointBytes id checkpointPlan ''v1'' = fBytes checkpointFile"
    by code_simp
  note t = checkpoint_supersedes_earlier_files [OF valid dist clean nobase files cp lastcp run tag,
      of id checkpointPlan exampleHash "\<lparr> dFiles = [], dSum = None \<rparr>" "''2''"]
  have 1: "hd (header (fBytes checkpointFile)) = ''-- atlas:checkpoint v1''"
    using t [THEN conjunct1] by (simp add: same)
  have 2: "Pending ?e newMockDriver [] = (Inr [checkpointFile, laterFile], [])"
    using t [THEN conjunct2, THEN conjunct2, THEN conjunct1] by simp
  have 3: "ReadRevision (snd (snd (ExecuteN ?e 2 newMockDriver []))) (Version (partlyFiles ! 0)) = None"
    using t [THEN conjunct2, THEN conjunct2, THEN conjunct2, THEN conjunct2] by simp
  from bytes 1 2 3 show ?thesis by blast
qed

end
